theory Spec2Isabelle
  imports Complex_Main "HOL-Library.Word" "HOL-Library.Log_Nat"
begin

unbundle bit_operations_syntax

section \<open>Data\<close>

text \<open>
  Bytes are 8-bit words, so that Python's \<open>a ^ b\<close> on two byte values is \<open>XOR\<close>.
  A file system maps a path to the content of the file stored there; a path without a
  file maps to \<open>None\<close>.
\<close>

type_synonym byte = "8 word"
type_synonym path = string
type_synonym fs = "path \<rightharpoonup> byte list"

text \<open>
  Python values as the JSON decoder builds them. A \<open>dict\<close> is an association list read
  with \<open>map_of\<close>. Floats are exact rationals: rounding, infinities and NaN are outside
  the model.
\<close>

datatype pyval =
    PNone
  | PBool bool
  | PInt int
  | PFloat rat
  | PStr string
  | PList "pyval list"
  | PDict "(string \<times> pyval) list"

type_synonym dict = "(string \<times> pyval) list"

text \<open>
  A Python \<open>float\<close> of the transcoder: a finite double by its exact value, an infinity
  or NaN.
\<close>

datatype pyfloat = Fin rat | PInf | NInf | NaN

text \<open>
  Every \<open>raise RuntimeError(...)\<close> of the two scripts is one constructor, named after its
  message and carrying the values the message formats. The remaining constructors are
  the exceptions of the libraries the scripts call.
\<close>

datatype error =
    HttpStatus int string        \<comment> \<open>\<open>RuntimeError(f"HTTP {resp.status_code} {resp.text[:500]}")\<close>\<close>
  | ApiError dict                \<comment> \<open>\<open>RuntimeError(f"API error: {data}")\<close>\<close>
  | NoUsersFound                 \<comment> \<open>\<open>RuntimeError("No users found")\<close>\<close>
  | UserIndexOutOfRange int      \<comment> \<open>\<open>RuntimeError(f"User index out of range: {index}")\<close>\<close>
  | NoVideosFound                \<comment> \<open>\<open>RuntimeError("No videos found in home page response")\<close>\<close>
  | EncryptedFileIsEmpty         \<comment> \<open>\<open>RuntimeError("Encrypted file is empty")\<close>\<close>
  | TargetSizeTooSmall           \<comment> \<open>\<open>RuntimeError("Target size too small for chosen audio bitrate")\<close>\<close>
  | FailedToReachTarget pyfloat path \<comment> \<open>\<open>RuntimeError(f"Failed to reach target size ... Last output: ...")\<close>\<close>
  | HTTPError int                \<comment> \<open>\<open>requests.HTTPError\<close>, from \<open>raise_for_status\<close>\<close>
  | FileNotFoundError path       \<comment> \<open>opening a missing file for reading\<close>
  | AttributeError               \<comment> \<open>\<open>.get\<close> on a value that is not a dict\<close>
  | OverflowError                \<comment> \<open>\<open>int\<close> of an infinity, an \<open>int\<close> too large for a float\<close>
  | ValueError                   \<comment> \<open>\<open>int\<close> of NaN\<close>
  | ZeroDivisionError            \<comment> \<open>division by zero\<close>
  | External string              \<comment> \<open>an exception of the network, the JSON decoder or a subprocess\<close>

section \<open>XOR deobfuscation: \<open>_decrypt_file\<close>\<close>

text \<open>
  The copy loop of \<open>_decrypt_file\<close>: \<open>fin\<close> is what is left to read, \<open>fout\<close> what has been
  written. Each round reads at most 1 MiB and stops at the first empty read.
\<close>

function copy_rest :: "byte list \<Rightarrow> byte list \<Rightarrow> byte list" where
  "copy_rest fin fout =
     (let buf = take (1024 * 1024) fin
      in if buf = [] then fout
         else copy_rest (drop (1024 * 1024) fin) (fout @ buf))"
  by pat_completeness auto
termination
  by (relation "measure (\<lambda>(fin, fout). length fin)") auto

declare copy_rest.simps [simp del]

text \<open>
  \<open>_decrypt_file(enc_path, out_path, keystream)\<close>. The input is opened first (a missing
  file raises there), then the output is opened with \<open>"wb"\<close>, which creates it or cuts it
  to length 0; the reads that follow see the file system after that. The function
  returns \<open>None\<close>.
\<close>

definition decrypt_file :: "fs \<Rightarrow> path \<Rightarrow> path \<Rightarrow> byte list \<Rightarrow> (error + pyval) \<times> fs" where
  "decrypt_file fs enc_path out_path keystream =
     (case fs enc_path of
        None \<Rightarrow> (Inl (FileNotFoundError enc_path), fs)
      | Some _ \<Rightarrow>
          (let fs1 = fs(out_path \<mapsto> []);
               fin = (case fs1 enc_path of Some bs \<Rightarrow> bs | None \<Rightarrow> []);
               head = take (length keystream) fin
           in if head = [] then (Inl EncryptedFileIsEmpty, fs1)
              else
                (let dec_head = map (\<lambda>(a, b). a XOR b) (zip head keystream);
                     written = copy_rest (drop (length head) fin) dec_head
                 in (Inr PNone, fs1(out_path \<mapsto> written)))))"

section \<open>HTTP boundary\<close>

text \<open>
  \<open>requests.get\<close> is the environment: a function from the request to either the
  exception it raises or the response. A response carries what the scripts read from it:
  the status, the body as text, what \<open>resp.json()\<close> gives (the decoded value or the
  decoder's exception), the chunks \<open>iter_content\<close> yields, and the exception the stream
  raises after its last chunk, if any. Timeouts are not modelled.
\<close>

record request =
  req_url :: string
  req_params :: dict
  req_headers :: "(string \<times> string) list"

record response =
  status_code :: int
  resp_text :: string
  resp_json :: "error + pyval"
  resp_chunks :: "byte list list"
  resp_stream_error :: "error option"

type_synonym http = "request \<Rightarrow> error + response"

text \<open>An HTTP stub that answers every request with the same response.\<close>

definition serve :: "response \<Rightarrow> http" where
  "serve resp req = Inr resp"

section \<open>Remote catalog client: \<open>_api_get\<close>, \<open>_select_user\<close>, \<open>_get_object_list\<close>\<close>

definition API_BASE :: string where
  "API_BASE = ''https://api.tikhub.io''"

text \<open>\<open>d.get(k)\<close>: the value under the key, \<open>None\<close> when the key is missing.\<close>

definition dict_get :: "dict \<Rightarrow> string \<Rightarrow> pyval" where
  "dict_get d k = (case map_of d k of None \<Rightarrow> PNone | Some v \<Rightarrow> v)"

text \<open>
  Python's \<open>v == n\<close> for an integer literal \<open>n\<close>: numbers compare by value across
  \<open>bool\<close>, \<open>int\<close> and \<open>float\<close>; no other value equals an integer.
\<close>

fun py_eq_int :: "pyval \<Rightarrow> int \<Rightarrow> bool" where
  "py_eq_int (PInt i) n = (i = n)"
| "py_eq_int (PBool b) n = ((if b then 1 else 0) = n)"
| "py_eq_int (PFloat r) n = (r = of_int n)"
| "py_eq_int _ n = False"

definition api_request :: "string \<Rightarrow> string \<Rightarrow> dict \<Rightarrow> request" where
  "api_request api_key path params =
     \<lparr>req_url = API_BASE @ path, req_params = params,
      req_headers = [(''Authorization'', ''Bearer '' @ api_key)]\<rparr>"

definition api_get :: "http \<Rightarrow> string \<Rightarrow> string \<Rightarrow> dict \<Rightarrow> error + dict" where
  "api_get http api_key path params =
     (case http (api_request api_key path params) of
        Inl e \<Rightarrow> Inl e
      | Inr resp \<Rightarrow>
          if status_code resp \<noteq> 200
          then Inl (HttpStatus (status_code resp) (take 500 (resp_text resp)))
          else
            (case resp_json resp of
               Inl e \<Rightarrow> Inl e
             | Inr (PDict data) \<Rightarrow>
                 if \<not> py_eq_int (dict_get data ''code'') 200 then Inl (ApiError data)
                 else Inr data
             | Inr _ \<Rightarrow> Inl AttributeError))"

definition select_user :: "dict list \<Rightarrow> int \<Rightarrow> error + dict" where
  "select_user data index =
     (if data = [] then Inl NoUsersFound
      else if index < 0 \<or> index \<ge> int (length data) then Inl (UserIndexOutOfRange index)
      else Inr (data ! nat index))"

definition get_object_list :: "dict \<Rightarrow> pyval" where
  "get_object_list home_data =
     (case map_of home_data ''object_list'' of
        Some v \<Rightarrow> v
      | None \<Rightarrow>
          (case map_of home_data ''object'' of
             Some v \<Rightarrow> v
           | None \<Rightarrow> PList []))"

section \<open>Media selector: the \<open>max\<close> of \<open>main\<close>\<close>

text \<open>Python's truth value of a decoded JSON value, and \<open>a or b\<close>.\<close>

fun truthy :: "pyval \<Rightarrow> bool" where
  "truthy PNone = False"
| "truthy (PBool b) = b"
| "truthy (PInt i) = (i \<noteq> 0)"
| "truthy (PFloat r) = (r \<noteq> 0)"
| "truthy (PStr s) = (s \<noteq> [])"
| "truthy (PList xs) = (xs \<noteq> [])"
| "truthy (PDict d) = (d \<noteq> [])"

definition py_or :: "pyval \<Rightarrow> pyval \<Rightarrow> pyval" where
  "py_or a b = (if truthy a then a else b)"

text \<open>
  The interpreter's \<open>a > b\<close> is a parameter \<open>gt\<close>: it answers a truth value or raises
  (\<open>TypeError\<close> between values that have no order). The builtin \<open>max(xs, key=f)\<close> keeps the
  first item and replaces it by a later one only when that one's key is greater.
\<close>

type_synonym py_gt = "pyval \<Rightarrow> pyval \<Rightarrow> error + bool"

fun py_max :: "py_gt \<Rightarrow> ('a \<Rightarrow> pyval) \<Rightarrow> 'a \<Rightarrow> 'a list \<Rightarrow> error + 'a" where
  "py_max gt key best [] = Inr best"
| "py_max gt key best (x # xs) =
     (case gt (key x) (key best) of
        Inl e \<Rightarrow> Inl e
      | Inr replace \<Rightarrow> if replace then py_max gt key x xs else py_max gt key best xs)"

definition createtime_key :: "dict \<Rightarrow> pyval" where
  "createtime_key x = py_or (dict_get x ''createtime'') (PInt 0)"

text \<open>
  Lines 131 to 135 of \<open>main\<close> in \<open>tikhub_wechat_channels.py\<close>: the empty list raises, else
  the latest video is the \<open>max\<close> by \<open>createtime\<close>.
\<close>

definition select_latest :: "py_gt \<Rightarrow> dict list \<Rightarrow> error + dict" where
  "select_latest gt videos =
     (case videos of
        [] \<Rightarrow> Inl NoVideosFound
      | v # vs \<Rightarrow> py_max gt createtime_key v vs)"

text \<open>
  The instance of \<open>gt\<close> for catalogs whose timestamps are integers: Python's \<open>>\<close> on two
  \<open>int\<close> values. Every other pair is outside this instance and answers \<open>TypeError\<close>.
\<close>

fun int_gt :: py_gt where
  "int_gt (PInt a) (PInt b) = Inr (b < a)"
| "int_gt _ _ = Inl (External ''TypeError'')"

text \<open>
  The timestamp of a record as the claim reads it: the integer under \<open>createtime\<close>,
  and 0 when the key is missing or holds \<open>None\<close>.
\<close>

definition timestamp :: "dict \<Rightarrow> int" where
  "timestamp x = (case map_of x ''createtime'' of Some (PInt t) \<Rightarrow> t | _ \<Rightarrow> 0)"

definition int_timestamped :: "dict \<Rightarrow> bool" where
  "int_timestamped x =
     (case map_of x ''createtime'' of
        None \<Rightarrow> True | Some PNone \<Rightarrow> True | Some (PInt t) \<Rightarrow> True | Some _ \<Rightarrow> False)"

section \<open>Streaming downloader: \<open>_download_file\<close>\<close>

text \<open>\<open>Response.raise_for_status\<close> of requests raises for the statuses 400 to 599.\<close>

definition raise_for_status :: "response \<Rightarrow> error option" where
  "raise_for_status resp =
     (if 400 \<le> status_code resp \<and> status_code resp < 600
      then Some (HTTPError (status_code resp)) else None)"

fun write_chunks :: "byte list list \<Rightarrow> byte list \<Rightarrow> byte list" where
  "write_chunks [] f = f"
| "write_chunks (chunk # rest) f =
     (if chunk \<noteq> [] then write_chunks rest (f @ chunk) else write_chunks rest f)"

text \<open>
  \<open>_download_file(url, out_path)\<close>: the destination is opened only after
  \<open>raise_for_status\<close>; a stream that breaks leaves what was written. The function
  returns \<open>None\<close>.
\<close>

definition download_file :: "http \<Rightarrow> fs \<Rightarrow> string \<Rightarrow> path \<Rightarrow> (error + pyval) \<times> fs" where
  "download_file http fs url out_path =
     (case http \<lparr>req_url = url, req_params = [], req_headers = []\<rparr> of
        Inl e \<Rightarrow> (Inl e, fs)
      | Inr resp \<Rightarrow>
          (case raise_for_status resp of
             Some e \<Rightarrow> (Inl e, fs)
           | None \<Rightarrow>
               (let fs1 = fs(out_path \<mapsto> write_chunks (resp_chunks resp) [])
                in case resp_stream_error resp of
                     Some e \<Rightarrow> (Inl e, fs1)
                   | None \<Rightarrow> (Inr PNone, fs1))))"

section \<open>Double arithmetic\<close>

text \<open>
  A Python \<open>float\<close> is an IEEE 754 binary64 value: a finite number, an infinity or NaN.
  The sign of a zero is not kept; nothing in the scripts observes it. \<open>rnd\<close> rounds a
  rational to the nearest double, ties to even: the quantum is \<open>2^(e - 52)\<close> for a number
  in \<open>[2^e, 2^(e+1))\<close>, never below \<open>2^(-1074)\<close>, and a result of \<open>2^1024\<close> or more is an
  infinity. The exponent is read off the bit length of the number scaled by \<open>2^1074\<close>.
\<close>

definition round_half_even :: "rat \<Rightarrow> int" where
  "round_half_even r =
     (let f = \<lfloor>r\<rfloor>; d = r - of_int f
      in if d < 1 / 2 then f else if 1 / 2 < d then f + 1 else if even f then f else f + 1)"

definition rnd :: "rat \<Rightarrow> pyfloat" where
  "rnd x =
     (let a = \<bar>x\<bar>;
          sh = max (bitlen \<lfloor>a * 2 ^ 1074\<rfloor> - 53) 0;
          q = 2 powi (sh - 1074);
          n = round_half_even (a / q);
          y = of_int n * q
      in if 2 ^ 1024 \<le> y then (if 0 < x then PInf else NInf)
         else Fin (if 0 \<le> x then y else - y))"

text \<open>
  \<open>a * b\<close>, \<open>a - b\<close> and \<open>a / b\<close> on floats. Multiplication and subtraction never raise (an
  overflow gives an infinity); division raises on a zero divisor.
\<close>

fun fmul :: "pyfloat \<Rightarrow> pyfloat \<Rightarrow> pyfloat" where
  "fmul (Fin a) (Fin b) = rnd (a * b)"
| "fmul NaN _ = NaN"
| "fmul _ NaN = NaN"
| "fmul (Fin a) PInf = (if a = 0 then NaN else if 0 < a then PInf else NInf)"
| "fmul (Fin a) NInf = (if a = 0 then NaN else if 0 < a then NInf else PInf)"
| "fmul PInf (Fin b) = (if b = 0 then NaN else if 0 < b then PInf else NInf)"
| "fmul NInf (Fin b) = (if b = 0 then NaN else if 0 < b then NInf else PInf)"
| "fmul PInf PInf = PInf"
| "fmul PInf NInf = NInf"
| "fmul NInf PInf = NInf"
| "fmul NInf NInf = PInf"

fun fsub :: "pyfloat \<Rightarrow> pyfloat \<Rightarrow> pyfloat" where
  "fsub (Fin a) (Fin b) = rnd (a - b)"
| "fsub NaN _ = NaN"
| "fsub _ NaN = NaN"
| "fsub (Fin a) PInf = NInf"
| "fsub (Fin a) NInf = PInf"
| "fsub PInf (Fin b) = PInf"
| "fsub NInf (Fin b) = NInf"
| "fsub PInf PInf = NaN"
| "fsub PInf NInf = PInf"
| "fsub NInf PInf = NInf"
| "fsub NInf NInf = NaN"

fun fdiv :: "pyfloat \<Rightarrow> pyfloat \<Rightarrow> error + pyfloat" where
  "fdiv a (Fin b) =
     (if b = 0 then Inl ZeroDivisionError
      else case a of
             Fin x \<Rightarrow> Inr (rnd (x / b))
           | PInf \<Rightarrow> Inr (if 0 < b then PInf else NInf)
           | NInf \<Rightarrow> Inr (if 0 < b then NInf else PInf)
           | NaN \<Rightarrow> Inr NaN)"
| "fdiv a NaN = Inr NaN"
| "fdiv (Fin x) PInf = Inr (Fin 0)"
| "fdiv (Fin x) NInf = Inr (Fin 0)"
| "fdiv NaN PInf = Inr NaN"
| "fdiv NaN NInf = Inr NaN"
| "fdiv PInf PInf = Inr NaN"
| "fdiv PInf NInf = Inr NaN"
| "fdiv NInf PInf = Inr NaN"
| "fdiv NInf NInf = Inr NaN"

text \<open>\<open>a > b\<close> and \<open>a <= b\<close> on floats: every comparison with NaN is false.\<close>

fun fgt :: "pyfloat \<Rightarrow> pyfloat \<Rightarrow> bool" where
  "fgt (Fin a) (Fin b) = (b < a)"
| "fgt NaN _ = False"
| "fgt _ NaN = False"
| "fgt PInf PInf = False"
| "fgt PInf _ = True"
| "fgt NInf _ = False"
| "fgt (Fin a) PInf = False"
| "fgt (Fin a) NInf = True"

fun fle :: "pyfloat \<Rightarrow> pyfloat \<Rightarrow> bool" where
  "fle (Fin a) (Fin b) = (a \<le> b)"
| "fle NaN _ = False"
| "fle _ NaN = False"
| "fle NInf _ = True"
| "fle PInf PInf = True"
| "fle PInf _ = False"
| "fle (Fin a) PInf = True"
| "fle (Fin a) NInf = False"

text \<open>
  The builtin \<open>max(a, b)\<close> on two floats keeps \<open>a\<close> unless \<open>b > a\<close>. Converting an \<open>int\<close>
  to a float (as \<open>float - int\<close> and \<open>int * float\<close> do) and the true division \<open>int / int\<close>
  round to the nearest double and raise \<open>OverflowError\<close> when that is an infinity.
  \<open>int(x)\<close> truncates towards zero and raises on an infinity and on NaN.
\<close>

definition py_max2 :: "pyfloat \<Rightarrow> pyfloat \<Rightarrow> pyfloat" where
  "py_max2 a b = (if fgt b a then b else a)"

definition float_of_int :: "int \<Rightarrow> error + pyfloat" where
  "float_of_int n =
     (case rnd (of_int n) of
        Fin r \<Rightarrow> Inr (Fin r)
      | _ \<Rightarrow> Inl OverflowError)"

definition int_truediv :: "int \<Rightarrow> int \<Rightarrow> error + pyfloat" where
  "int_truediv a b =
     (if b = 0 then Inl ZeroDivisionError
      else case rnd (of_int a / of_int b) of
             Fin r \<Rightarrow> Inr (Fin r)
           | _ \<Rightarrow> Inl OverflowError)"

fun py_int :: "pyfloat \<Rightarrow> error + int" where
  "py_int (Fin r) = Inr (if 0 \<le> r then \<lfloor>r\<rfloor> else \<lceil>r\<rceil>)"
| "py_int NaN = Inl ValueError"
| "py_int _ = Inl OverflowError"

section \<open>Size-targeted transcoder: \<open>_calc_bitrates\<close> and the retry loop of \<open>main\<close>\<close>

text \<open>
  \<open>_calc_bitrates(target_mb, duration_s, audio_kbps, safety)\<close>, operation by operation in
  double arithmetic. The literal \<open>0.001\<close> is the double nearest to 1/1000; the integers
  1024 and 8 are doubles exactly.
\<close>

definition calc_bitrates :: "pyfloat \<Rightarrow> pyfloat \<Rightarrow> int \<Rightarrow> pyfloat \<Rightarrow> error + int" where
  "calc_bitrates target_mb duration_s audio_kbps safety =
     (let target_bytes = fmul (fmul target_mb (Fin 1024)) (Fin 1024)
      in case fdiv (fmul target_bytes (Fin 8)) (py_max2 duration_s (rnd (1 / 1000))) of
           Inl e \<Rightarrow> Inl e
         | Inr total_bps \<Rightarrow>
             (let total_bps = fmul total_bps safety;
                  audio_bps = audio_kbps * 1000
              in case float_of_int audio_bps of
                   Inl e \<Rightarrow> Inl e
                 | Inr audio_f \<Rightarrow>
                     (case py_int (fsub total_bps audio_f) of
                        Inl e \<Rightarrow> Inl e
                      | Inr video_bps \<Rightarrow>
                          if video_bps \<le> 0 then Inl TargetSizeTooSmall
                          else Inr (max video_bps 200000))))"

text \<open>
  The encoder is the environment: given how many runs came before and the bitrates of
  the command line, it fails (\<open>subprocess.run(check=True)\<close> raises) or leaves an output
  file of some size in bytes.
\<close>

record cmd =
  video_k :: int
  maxrate_k :: int
  bufsize_k :: int

type_synonym encoder = "nat \<Rightarrow> cmd \<Rightarrow> error + nat"

text \<open>
  An encoder stub: run \<open>i\<close> leaves an output of size \<open>sizes ! i\<close>, and of size \<open>rest\<close>
  once the list is used up.
\<close>

definition stub_encoder :: "nat list \<Rightarrow> nat \<Rightarrow> encoder" where
  "stub_encoder sizes rest i c = Inr (if i < length sizes then sizes ! i else rest)"

text \<open>
  Lines 84 to 86 of \<open>main\<close>: the three bitrates of the command, \<open>int(video_bps / 1000)\<close>,
  \<open>int(video_k * 1.07)\<close> and \<open>int(video_k * 2)\<close>.
\<close>

definition make_cmd :: "int \<Rightarrow> error + cmd" where
  "make_cmd video_bps =
     (case int_truediv video_bps 1000 of
        Inl e \<Rightarrow> Inl e
      | Inr q \<Rightarrow>
          (case py_int q of
             Inl e \<Rightarrow> Inl e
           | Inr vk \<Rightarrow>
               (case float_of_int vk of
                  Inl e \<Rightarrow> Inl e
                | Inr kf \<Rightarrow>
                    (case py_int (fmul kf (rnd (107 / 100))) of
                       Inl e \<Rightarrow> Inl e
                     | Inr mk \<Rightarrow> Inr \<lparr>video_k = vk, maxrate_k = mk, bufsize_k = vk * 2\<rparr>))))"

text \<open>
  The \<open>for attempt in range(args.retries + 1)\<close> loop, lines 81 to 122 of \<open>main\<close> in
  \<open>compress_video_to_size.py\<close>. The first argument counts the iterations left; the list
  \<open>runs\<close> holds, for each run of the encoder so far, the safety factor and the command.
\<close>

fun retry_loop ::
  "encoder \<Rightarrow> pyfloat \<Rightarrow> pyfloat \<Rightarrow> int \<Rightarrow> path \<Rightarrow> nat \<Rightarrow> pyfloat \<Rightarrow> (pyfloat \<times> cmd) list
     \<Rightarrow> (error + pyval) \<times> (pyfloat \<times> cmd) list" where
  "retry_loop enc target_mb duration audio_bitrate out_path 0 safety runs =
     (Inl (FailedToReachTarget target_mb out_path), runs)"
| "retry_loop enc target_mb duration audio_bitrate out_path (Suc n) safety runs =
     (case calc_bitrates target_mb duration audio_bitrate safety of
        Inl e \<Rightarrow> (Inl e, runs)
      | Inr video_bps \<Rightarrow>
          (case make_cmd video_bps of
             Inl e \<Rightarrow> (Inl e, runs)
           | Inr c \<Rightarrow>
               (let runs' = runs @ [(safety, c)]
                in case enc (length runs) c of
                     Inl e \<Rightarrow> (Inl e, runs')
                   | Inr st_size \<Rightarrow>
                       (case int_truediv (int st_size) (1024 * 1024) of
                          Inl e \<Rightarrow> (Inl e, runs')
                        | Inr size_mb \<Rightarrow>
                            if fle size_mb target_mb then (Inr PNone, runs')
                            else retry_loop enc target_mb duration audio_bitrate out_path n
                                   (fmul safety (rnd (9 / 10))) runs'))))"

definition transcode ::
  "encoder \<Rightarrow> pyfloat \<Rightarrow> pyfloat \<Rightarrow> int \<Rightarrow> path \<Rightarrow> int \<Rightarrow> pyfloat
     \<Rightarrow> (error + pyval) \<times> (pyfloat \<times> cmd) list" where
  "transcode enc target_mb duration audio_bitrate out_path retries safety =
     retry_loop enc target_mb duration audio_bitrate out_path (nat (retries + 1)) safety []"

text \<open>
  The safety factor of attempt \<open>i\<close>: the starting factor after \<open>i\<close> times
  \<open>safety *= 0.9\<close>.
\<close>

fun decayed :: "pyfloat \<Rightarrow> nat \<Rightarrow> pyfloat" where
  "decayed safety 0 = safety"
| "decayed safety (Suc i) = fmul (decayed safety i) (rnd (9 / 10))"

section \<open>Properties of the deobfuscation\<close>

lemma copy_rest_append: "copy_rest fin fout = fout @ fin"
proof (induction fin fout rule: copy_rest.induct)
  case (1 fin fout)
  show ?case
  proof (cases "take (1024 * 1024) fin = []")
    case True
    then have "fin = []" by simp
    then show ?thesis by (simp add: copy_rest.simps)
  next
    case False
    then have "copy_rest fin fout = copy_rest (drop (1024 * 1024) fin) (fout @ take (1024 * 1024) fin)"
      by (subst copy_rest.simps) (simp add: Let_def)
    also have "\<dots> = (fout @ take (1024 * 1024) fin) @ drop (1024 * 1024) fin"
      using "1.IH" [OF refl False] .
    finally show ?thesis by simp
  qed
qed

lemma xor_zip_involution:
  "length h \<le> length ks \<Longrightarrow>
   map (\<lambda>(a, b). a XOR b) (zip (map (\<lambda>(a, b). a XOR b) (zip h ks)) ks) = (h :: byte list)"
proof (induction h arbitrary: ks)
  case Nil
  then show ?case by simp
next
  case (Cons x h)
  then obtain k ks' where ks: "ks = k # ks'" by (cases ks) auto
  with Cons.prems have "length h \<le> length ks'" by simp
  from Cons.IH [OF this] show ?case by (simp add: ks xor.assoc)
qed

text \<open>
  With distinct paths, a non-empty input and a non-empty keystream, the output is the
  XOR of the head with the keystream, followed by the rest of the input.
\<close>

lemma decrypt_file_ok:
  assumes "fs enc = Some c" and "enc \<noteq> out" and "c \<noteq> []" and "ks \<noteq> []"
  shows "decrypt_file fs enc out ks =
           (Inr PNone, fs(out \<mapsto> map (\<lambda>(a, b). a XOR b) (zip (take (length ks) c) ks) @ drop (length ks) c))"
proof -
  have ne: "take (length ks) c \<noteq> []" using assms(3,4) by simp
  have d: "drop (min (length c) (length ks)) c = drop (length ks) c"
    by (cases "length ks \<le> length c") (simp_all add: min_def)
  show ?thesis
    using assms(1,2) ne
    by (simp add: decrypt_file_def Let_def copy_rest_append d)
qed

lemma decrypt_file_empty:
  assumes "fs enc = Some c" and "enc \<noteq> out" and "c = [] \<or> ks = []"
  shows "decrypt_file fs enc out ks = (Inl EncryptedFileIsEmpty, fs(out \<mapsto> []))"
  using assms by (auto simp add: decrypt_file_def Let_def)

text \<open>
  When both paths name the same file, opening the output cuts the input to length 0
  before the first read, so the call raises whatever the file held.
\<close>

lemma decrypt_file_same_path:
  assumes "fs p = Some c"
  shows "decrypt_file fs p p ks = (Inl EncryptedFileIsEmpty, fs(p \<mapsto> []))"
  using assms by (simp add: decrypt_file_def Let_def)

text \<open>
  Claim C1. For a keystream of positive length and a ciphertext file that holds at least
  as many bytes, deobfuscating the file and then deobfuscating the result with the same
  keystream gives back the ciphertext (so in particular its first \<open>len(K)\<close> bytes), and
  each pass copies the bytes beyond offset \<open>len(K)\<close> unchanged. The three paths are the
  ciphertext, the intermediate file and the final file.
\<close>

theorem decrypt_file_twice:
  assumes "keystream \<noteq> []" and "length keystream \<le> length c"
    and "fs enc = Some c" and "enc \<noteq> mid" and "mid \<noteq> out"
  shows "\<exists>p. decrypt_file fs enc mid keystream = (Inr PNone, fs(mid \<mapsto> p))
           \<and> length p = length c
           \<and> drop (length keystream) p = drop (length keystream) c
           \<and> decrypt_file (fs(mid \<mapsto> p)) mid out keystream = (Inr PNone, (fs(mid \<mapsto> p))(out \<mapsto> c))"
proof -
  let ?n = "length keystream"
  let ?x = "map (\<lambda>(a, b). a XOR b)"
  let ?p = "?x (zip (take ?n c) keystream) @ drop ?n c"
  from assms(1,2) have c: "c \<noteq> []" by auto
  have len: "length (?x (zip (take ?n c) keystream)) = ?n" using assms(2) by simp
  have p1: "decrypt_file fs enc mid keystream = (Inr PNone, fs(mid \<mapsto> ?p))"
    using assms(3,4) c assms(1) by (rule decrypt_file_ok)
  have lp: "length ?p = length c" using assms(2) by simp
  have dp: "drop ?n ?p = drop ?n c" using len by simp
  have tp: "take ?n ?p = ?x (zip (take ?n c) keystream)" using len by simp
  have pne: "?p \<noteq> []" using lp c by (metis length_0_conv)
  have q: "decrypt_file (fs(mid \<mapsto> ?p)) mid out keystream =
          (Inr PNone, (fs(mid \<mapsto> ?p))(out \<mapsto> ?x (zip (take ?n ?p) keystream) @ drop ?n ?p))"
    using assms(5) pne assms(1) by (intro decrypt_file_ok) simp_all
  have "?x (zip (take ?n ?p) keystream) = take ?n c"
    unfolding tp by (rule xor_zip_involution) simp
  then have "?x (zip (take ?n ?p) keystream) @ drop ?n ?p = take ?n c @ drop ?n c"
    using dp by (simp only:)
  then have "?x (zip (take ?n ?p) keystream) @ drop ?n ?p = c"
    by (simp only: append_take_drop_id)
  with q have p2: "decrypt_file (fs(mid \<mapsto> ?p)) mid out keystream =
          (Inr PNone, (fs(mid \<mapsto> ?p))(out \<mapsto> c))"
    by (simp only:)
  from p1 lp dp p2 show ?thesis by blast
qed

theorem decrypt_file_twice_witness:
  "[5, 6] \<noteq> ([] :: byte list) \<and> length [5, 6 :: byte] \<le> length [1, 2, 3 :: byte]
   \<and> [''enc'' \<mapsto> [1, 2, 3 :: byte]] ''enc'' = Some [1, 2, 3] \<and> ''enc'' \<noteq> ''dec'' \<and> ''dec'' \<noteq> ''again''
   \<and> (\<exists>p. decrypt_file [''enc'' \<mapsto> [1, 2, 3]] ''enc'' ''dec'' [5, 6] = (Inr PNone, [''enc'' \<mapsto> [1, 2, 3], ''dec'' \<mapsto> p])
          \<and> length p = length [1, 2, 3 :: byte]
          \<and> drop (length [5, 6 :: byte]) p = drop (length [5, 6 :: byte]) [1, 2, 3]
          \<and> decrypt_file [''enc'' \<mapsto> [1, 2, 3], ''dec'' \<mapsto> p] ''dec'' ''again'' [5, 6]
              = (Inr PNone, [''enc'' \<mapsto> [1, 2, 3], ''dec'' \<mapsto> p, ''again'' \<mapsto> [1, 2, 3]]))"
  using decrypt_file_twice [of "[5, 6]" "[1, 2, 3]" "[''enc'' \<mapsto> [1, 2, 3]]" "''enc''" "''dec''" "''again''"]
  by simp

lemma zip_take_length: "zip xs ys = zip xs (take (length xs) ys)"
proof (induction xs arbitrary: ys)
  case Nil
  then show ?case by simp
next
  case (Cons x xs)
  then show ?case by (cases ys) simp_all
qed

text \<open>
  Claim C2, amended. For a ciphertext file that is not empty and strictly shorter than
  the keystream (and an output path other than the input path), deobfuscation raises
  nothing and writes exactly the bytes present, each XORed with the keystream byte at the
  same position: the output has the length of the ciphertext, with no padding.
\<close>

theorem decrypt_file_short:
  assumes "fs enc = Some c" and "enc \<noteq> out" and "c \<noteq> []" and "length c < length keystream"
  shows "decrypt_file fs enc out keystream =
           (Inr PNone, fs(out \<mapsto> map (\<lambda>(a, b). a XOR b) (zip c (take (length c) keystream))))
         \<and> length (map (\<lambda>(a, b). a XOR b) (zip c (take (length c) keystream))) = length c"
proof -
  from assms(3,4) have ks: "keystream \<noteq> []" by auto
  have z: "zip c keystream = zip c (take (length c) keystream)"
    by (rule zip_take_length)
  have "decrypt_file fs enc out keystream =
          (Inr PNone, fs(out \<mapsto> map (\<lambda>(a, b). a XOR b) (zip (take (length keystream) c) keystream) @ drop (length keystream) c))"
    using assms(1,2,3) ks by (rule decrypt_file_ok)
  then show ?thesis using assms(4) z by simp
qed

theorem decrypt_file_short_witness:
  "[''enc'' \<mapsto> [1, 2 :: byte]] ''enc'' = Some [1, 2] \<and> ''enc'' \<noteq> ''dec'' \<and> [1, 2 :: byte] \<noteq> []
   \<and> length [1, 2 :: byte] < length [5, 6, 7 :: byte]
   \<and> decrypt_file [''enc'' \<mapsto> [1, 2]] ''enc'' ''dec'' [5, 6, 7] = (Inr PNone, [''enc'' \<mapsto> [1, 2], ''dec'' \<mapsto> [4, 4]])"
  using decrypt_file_short [of "[''enc'' \<mapsto> [1, 2]]" "''enc''" "[1, 2]" "''dec''" "[5, 6, 7]"]
  by simp

text \<open>
  The empty file is strictly shorter than every non-empty keystream, and on it the call
  raises: the guard on the empty head comes before the XOR.
\<close>

theorem decrypt_file_short_empty_counterexample:
  "length ([] :: byte list) < length [7 :: byte]
   \<and> decrypt_file [''enc'' \<mapsto> []] ''enc'' ''dec'' [7] = (Inl EncryptedFileIsEmpty, [''enc'' \<mapsto> [], ''dec'' \<mapsto> []])"
  by (simp add: decrypt_file_def Let_def)

text \<open>
  Claim C10. With the ciphertext at a path other than the output path, deobfuscation
  raises its empty-input error exactly when the first read of \<open>len(keystream)\<close> bytes
  returns nothing, that is exactly when the ciphertext is empty or the keystream has
  length 0; so a non-empty ciphertext with an empty keystream fails instead of being
  copied through. In the failing case the only change to the file system is the output
  file, created empty.
\<close>

theorem decrypt_file_empty_iff:
  assumes "fs enc = Some c" and "enc \<noteq> out"
  shows "(fst (decrypt_file fs enc out keystream) = Inl EncryptedFileIsEmpty
            \<longleftrightarrow> take (length keystream) c = [])
       \<and> (fst (decrypt_file fs enc out keystream) = Inl EncryptedFileIsEmpty
            \<longleftrightarrow> c = [] \<or> keystream = [])
       \<and> (c = [] \<or> keystream = [] \<longrightarrow> snd (decrypt_file fs enc out keystream) = fs(out \<mapsto> []))"
proof (cases "c = [] \<or> keystream = []")
  case True
  have "decrypt_file fs enc out keystream = (Inl EncryptedFileIsEmpty, fs(out \<mapsto> []))"
    using assms True by (rule decrypt_file_empty)
  with True show ?thesis by auto
next
  case False
  then have ne: "c \<noteq> []" "keystream \<noteq> []" by simp_all
  have "decrypt_file fs enc out keystream =
          (Inr PNone, fs(out \<mapsto> map (\<lambda>(a, b). a XOR b) (zip (take (length keystream) c) keystream) @ drop (length keystream) c))"
    using assms ne by (rule decrypt_file_ok)
  with False ne show ?thesis by simp
qed

theorem decrypt_file_empty_iff_witness:
  "[''enc'' \<mapsto> [1, 2 :: byte]] ''enc'' = Some [1, 2] \<and> ''enc'' \<noteq> ''dec''
   \<and> decrypt_file [''enc'' \<mapsto> [1, 2]] ''enc'' ''dec'' [] = (Inl EncryptedFileIsEmpty, [''enc'' \<mapsto> [1, 2], ''dec'' \<mapsto> []])"
proof -
  have h: "[''enc'' \<mapsto> [1, 2 :: byte]] ''enc'' = Some [1, 2]" "''enc'' \<noteq> ''dec''" by simp_all
  from decrypt_file_empty_iff [of "[''enc'' \<mapsto> [1, 2]]" "''enc''" "[1, 2]" "''dec''" "[]"] h
  have "fst (decrypt_file [''enc'' \<mapsto> [1, 2]] ''enc'' ''dec'' []) = Inl EncryptedFileIsEmpty"
    and "snd (decrypt_file [''enc'' \<mapsto> [1, 2]] ''enc'' ''dec'' []) = [''enc'' \<mapsto> [1, 2], ''dec'' \<mapsto> []]"
    by simp_all
  then have "decrypt_file [''enc'' \<mapsto> [1, 2]] ''enc'' ''dec'' [] = (Inl EncryptedFileIsEmpty, [''enc'' \<mapsto> [1, 2], ''dec'' \<mapsto> []])"
    by (metis prod.collapse)
  with h show ?thesis by simp
qed

section \<open>Properties of the double arithmetic\<close>

lemma bitlen_eqI:
  assumes "2 ^ n \<le> x" and "x < 2 ^ Suc n"
  shows "bitlen x = int (Suc n)"
proof -
  have pos: "0 < x" using assms(1) by (meson less_le_trans zero_less_numeral zero_less_power)
  from bitlen_bounds [OF pos]
  have lo: "2 ^ nat (bitlen x - 1) \<le> x" and hi: "x < 2 ^ nat (bitlen x)" by simp_all
  from lo assms(2) have "(2 :: int) ^ nat (bitlen x - 1) < 2 ^ Suc n" by linarith
  then have a: "nat (bitlen x - 1) < Suc n" by (rule power_less_imp_less_exp [rotated]) simp
  from assms(1) hi have "(2 :: int) ^ n < 2 ^ nat (bitlen x)" by linarith
  then have b: "n < nat (bitlen x)" by (rule power_less_imp_less_exp [rotated]) simp
  from a b show ?thesis by linarith
qed

lemma round_half_even_eqI:
  assumes "\<bar>r - of_int n\<bar> < 1 / 2"
  shows "round_half_even r = n"
proof (cases "of_int n \<le> r")
  case True
  with assms have "r < of_int n + 1" by linarith
  with True have f: "\<lfloor>r\<rfloor> = n" by (simp add: floor_unique)
  from assms True have "r - of_int n < 1 / 2" by linarith
  with f show ?thesis by (simp add: round_half_even_def Let_def)
next
  case False
  with assms have lo: "of_int (n - 1) \<le> r" by simp
  from False have hi: "r < of_int (n - 1) + 1" by simp
  from lo hi have f: "\<lfloor>r\<rfloor> = n - 1" by (rule floor_unique)
  from assms False have "1 / 2 < r - of_int (n - 1)" by simp
  with f show ?thesis by (simp add: round_half_even_def Let_def)
qed

text \<open>
  Rounding a number whose mantissa, after scaling by \<open>2^k\<close>, lies in the normal range:
  the result is the nearest integer mantissa, scaled back.
\<close>

lemma rnd_core:
  assumes k: "k \<le> 1074"
    and lo: "2 ^ 52 \<le> \<bar>x\<bar> * 2 ^ k"
    and hi: "\<bar>x\<bar> * 2 ^ k < 2 ^ 53"
    and n: "\<bar>\<bar>x\<bar> * 2 ^ k - of_int n\<bar> < 1 / 2"
  shows "rnd x = Fin (if 0 \<le> x then of_int n / 2 ^ k else - (of_int n / 2 ^ k))"
proof -
  define a where "a = \<bar>x\<bar>"
  define j where "j = 1074 - k"
  have kj: "k + j = 1074" using k by (simp add: j_def)
  have split: "a * 2 ^ 1074 = (a * 2 ^ k) * 2 ^ j"
    unfolding kj [symmetric] by (simp add: power_add)
  have l1: "(2 :: rat) ^ (52 + j) \<le> a * 2 ^ 1074"
    unfolding split power_add using lo unfolding a_def by (intro mult_right_mono) simp_all
  have h1: "a * 2 ^ 1074 < (2 :: rat) ^ (53 + j)"
    unfolding split power_add using hi unfolding a_def by (intro mult_strict_right_mono) simp_all
  have fl: "(2 :: int) ^ (52 + j) \<le> \<lfloor>a * 2 ^ 1074\<rfloor>"
    using l1 by (simp add: le_floor_iff)
  have fh: "\<lfloor>a * 2 ^ 1074\<rfloor> < (2 :: int) ^ Suc (52 + j)"
    using h1 by (simp add: floor_less_iff)
  have bl: "bitlen \<lfloor>a * 2 ^ 1074\<rfloor> = int (Suc (52 + j))"
    using fl fh by (rule bitlen_eqI)
  have sh: "max (bitlen \<lfloor>a * 2 ^ 1074\<rfloor> - 53) 0 - 1074 = - int k"
    unfolding bl using kj by simp
  have q: "(2 :: rat) powi (max (bitlen \<lfloor>a * 2 ^ 1074\<rfloor> - 53) 0 - 1074) = 1 / 2 ^ k"
    unfolding sh by (simp add: power_int_minus_divide)
  have r: "round_half_even (a * 2 ^ k) = n"
    using n unfolding a_def by (rule round_half_even_eqI)
  have "of_int n < (2 :: rat) ^ 53 + 1"
    using n hi by linarith
  then have "of_int n < (of_int (2 ^ 53 + 1) :: rat)" by simp
  then have "n < 2 ^ 53 + 1" by (simp only: of_int_less_iff)
  then have "(of_int n :: rat) \<le> 2 ^ 53" by (simp flip: of_int_le_iff)
  then have "(of_int n :: rat) / 2 ^ k \<le> 2 ^ 53 / 2 ^ k"
    by (intro divide_right_mono) simp_all
  also have "(2 :: rat) ^ 53 / 2 ^ k \<le> 2 ^ 53 / 1"
    by (intro divide_left_mono) simp_all
  also have "(2 :: rat) ^ 53 / 1 < 2 ^ 1024" by simp
  finally have small: "(of_int n :: rat) / 2 ^ k < 2 ^ 1024" .
  have "rnd x = Fin (if 0 \<le> x then of_int n * (1 / 2 ^ k) else - (of_int n * (1 / 2 ^ k)))"
    unfolding rnd_def Let_def a_def [symmetric] q
    using small r by (simp add: not_le)
  then show ?thesis by simp
qed

lemma rnd_zero: "rnd 0 = Fin 0"
  by (simp add: rnd_def round_half_even_def Let_def)

lemma floor_rat_numeral: "\<lfloor>(numeral a :: rat) / numeral b\<rfloor> = numeral a div numeral b"
  using floor_divide_of_int_eq [of "numeral a" "numeral b", where ?'a = rat] by simp

lemma ceiling_neg_rat_numeral:
  "\<lceil>- ((numeral a :: rat) / numeral b)\<rceil> = - (numeral a div numeral b)"
  by (simp add: ceiling_def floor_rat_numeral)

lemma round_half_even_ge_floor: "\<lfloor>r\<rfloor> \<le> round_half_even r"
  by (simp add: round_half_even_def Let_def)

text \<open>A number of \<open>2^1024\<close> or more rounds to the infinity.\<close>

lemma rnd_overflow:
  assumes "2 ^ 1024 \<le> x"
  shows "rnd x = PInf"
proof -
  have x0: "0 < x" using assms by (rule less_le_trans [rotated]) simp
  then have ax: "\<bar>x\<bar> = x" by simp
  define N where "N = \<lfloor>x * 2 ^ 1074\<rfloor>"
  have "(2 :: rat) ^ 1024 * 2 ^ 1074 \<le> x * 2 ^ 1074"
    using assms by (intro mult_right_mono) simp_all
  then have "(2 :: rat) ^ (1024 + 1074) \<le> x * 2 ^ 1074" by (simp only: power_add)
  then have Nlo: "(2 :: int) ^ 2098 \<le> N" by (simp add: N_def le_floor_iff)
  then have Npos: "0 < N" by (rule less_le_trans [rotated]) simp
  from bitlen_bounds [OF Npos]
  have lo: "2 ^ nat (bitlen N - 1) \<le> N" and hi: "N < 2 ^ nat (bitlen N)" by simp_all
  from Nlo hi have "(2 :: int) ^ 2098 < 2 ^ nat (bitlen N)" by linarith
  then have "2098 < nat (bitlen N)" by (rule power_less_imp_less_exp [rotated]) simp
  then have b: "2099 \<le> bitlen N" by linarith
  define j where "j = nat (bitlen N - 53 - 1074)"
  have j: "972 \<le> j" using b by (simp add: j_def)
  have sh: "max (bitlen N - 53) 0 - 1074 = int j" using b by (simp add: j_def)
  have q: "(2 :: rat) powi (max (bitlen N - 53) 0 - 1074) = 2 ^ j"
    unfolding sh by simp
  have e: "nat (bitlen N - 1) = (52 + j) + 1074" using b by (simp add: j_def)
  have "(of_int N :: rat) \<le> x * 2 ^ 1074" by (simp add: N_def)
  moreover from lo have "(2 :: rat) ^ ((52 + j) + 1074) \<le> of_int N"
    unfolding e by (metis of_int_le_iff of_int_numeral of_int_power)
  ultimately have "(2 :: rat) ^ (52 + j) * 2 ^ 1074 \<le> x * 2 ^ 1074"
    by (simp only: power_add)
  then have xl: "(2 :: rat) ^ (52 + j) \<le> x" by simp
  then have "(2 :: rat) ^ 52 * 2 ^ j \<le> x" by (simp only: power_add)
  then have "(2 :: rat) ^ 52 \<le> x / 2 ^ j" by (simp add: pos_le_divide_eq)
  then have "(2 :: int) ^ 52 \<le> \<lfloor>x / 2 ^ j\<rfloor>" by (simp add: le_floor_iff)
  with round_half_even_ge_floor [of "x / 2 ^ j"]
  have n: "(2 :: int) ^ 52 \<le> round_half_even (x / 2 ^ j)" by linarith
  then have "(of_int ((2 :: int) ^ 52) :: rat) \<le> of_int (round_half_even (x / 2 ^ j))"
    by (simp only: of_int_le_iff)
  then have n': "(2 :: rat) ^ 52 \<le> of_int (round_half_even (x / 2 ^ j))" by simp
  have "(2 :: rat) ^ 1024 = 2 ^ 52 * 2 ^ 972" by simp
  also have "\<dots> \<le> 2 ^ 52 * 2 ^ j"
    using j by (intro mult_left_mono power_increasing) simp_all
  also have "\<dots> \<le> of_int (round_half_even (x / 2 ^ j)) * 2 ^ j"
    using n' by (intro mult_right_mono) simp_all
  finally have y: "(2 :: rat) ^ 1024 \<le> of_int (round_half_even (x / 2 ^ j)) * 2 ^ j" .
  show ?thesis
    unfolding rnd_def Let_def ax N_def [symmetric] q
    using y x0 by simp
qed

text \<open>
  The roundings that the examples below go through, each an instance of \<open>rnd_core\<close> with its
  exponent and mantissa.
\<close>

lemma rnd_values:
  "rnd (- (697784483673052943 / 2199023255552)) = Fin (- (2725720639347863 / 8589934592))"
  "rnd (- (185646820889513 / 34359738368)) = Fin (- (185646820889513 / 34359738368))"
  "rnd (125 / 131072) = Fin (125 / 131072)"
  "rnd (1 / 1000) = Fin (1152921504606847 / 1152921504606846976)"
  "rnd (1 / 10) = Fin (3602879701896397 / 36028797018963968)"
  "rnd (1 / 2) = Fin (1 / 2)"
  "rnd (56777766148078338444803643799335 / 81129638414606681695789005144064) = Fin (393974895402371 / 562949953421312)"
  "rnd (63086406831198156529719380643781 / 81129638414606681695789005144064) = Fin (7003998140486595 / 9007199254740992)"
  "rnd (8762000948777521515058821498667 / 10141204801825835211973625643008) = Fin (7782220156096217 / 9007199254740992)"
  "rnd (9 / 10) = Fin (8106479329266893 / 9007199254740992)"
  "rnd (24 / 25) = Fin (1080863910568919 / 1125899906842624)"
  "rnd (1) = Fin (1)"
  "rnd (107 / 100) = Fin (4818851601286431 / 4503599627370496)"
  "rnd (2) = Fin (2)"
  "rnd (55) = Fin (55)"
  "rnd (3602879701896397 / 35184372088832) = Fin (3602879701896397 / 35184372088832)"
  "rnd (200) = Fin (200)"
  "rnd (120471290032160775 / 562949953421312) = Fin (214)"
  "rnd (12000125 / 16384) = Fin (12000125 / 16384)"
  "rnd (991) = Fin (991)"
  "rnd (991163 / 1000) = Fin (2179590487042687 / 2199023255552)"
  "rnd (1024) = Fin (1024)"
  "rnd (4775481936874853121 / 4503599627370496) = Fin (4663556578979349 / 4398046511104)"
  "rnd (1111) = Fin (1111)"
  "rnd (1111959 / 1000) = Fin (4890447400440693 / 4398046511104)"
  "rnd (5353744129029224841 / 4503599627370496) = Fin (2614132875502551 / 2199023255552)"
  "rnd (1246) = Fin (1246)"
  "rnd (1246177 / 1000) = Fin (5480744407068049 / 4398046511104)"
  "rnd (3002144547601446513 / 2251799813685248) = Fin (5863563569534075 / 4398046511104)"
  "rnd (3323069989462289988744484292021 / 1237940039285380274899124224) = Fin (5902958103587057 / 2199023255552)"
  "rnd (3602879701896397 / 1288490188800) = Fin (3074457345618259 / 1099511627776)"
  "rnd (160229630492541 / 34359738368) = Fin (160229630492541 / 34359738368)"
  "rnd (20383) = Fin (20383)"
  "rnd (20383999 / 1000) = Fin (5603110980268589 / 274877906944)"
  "rnd (98222652189021323073 / 4503599627370496) = Fin (5995034923646321 / 274877906944)"
  "rnd (51200) = Fin (51200)"
  "rnd (28038403036088070433455297630149 / 309485009821345068724781056) = Fin (3112888062438487 / 34359738368)"
  "rnd (96000) = Fin (96000)"
  "rnd (7427717606964737071069126473373 / 77371252455336267181195264) = Fin (96001)"
  "rnd (2400025 / 24) = Fin (6872019256388267 / 68719476736)"
  "rnd (3894222643901120793455466284843 / 38685626227668133590597632) = Fin (3458764513820541 / 34359738368)"
  "rnd (524288 / 5) = Fin (3602879701896397 / 34359738368)"
  "rnd (3602879701896397 / 34359738368) = Fin (3602879701896397 / 34359738368)"
  "rnd (128000) = Fin (128000)"
  "rnd (320000) = Fin (320000)"
  "rnd (12000125 / 16) = Fin (12000125 / 16)"
  "rnd (3602879701896397 / 4294967296) = Fin (3602879701896397 / 4294967296)"
  "rnd (2128507616620865 / 2147483648) = Fin (2128507616620865 / 2147483648)"
  "rnd (1048576) = Fin (1048576)"
  "rnd (42057604554132099179411001839295 / 38685626227668133590597632) = Fin (2334666046828865 / 2147483648)"
  "rnd (4775829910314811 / 4294967296) = Fin (4775829910314811 / 4294967296)"
  "rnd (46730671726813445534278725319437 / 38685626227668133590597632) = Fin (5188146770730811 / 4294967296)"
  "rnd (2676145331309117 / 2147483648) = Fin (2676145331309117 / 2147483648)"
  "rnd (6490371073168533935183170095459 / 4835703278458516698824704) = Fin (2882303761517117 / 2147483648)"
  "rnd (4194304 / 3) = Fin (6004799503160661 / 4294967296)"
  "rnd (12000125 / 2) = Fin (12000125 / 2)"
  "rnd (8388608) = Fin (8388608)"
  "rnd (5577959926661119 / 536870912) = Fin (5577959926661119 / 536870912)"
  "rnd (6338253001141146412633065245027 / 604462909807314587353088) = Fin (5629499534213119 / 536870912)"
  "rnd (32768000 / 3) = Fin (5864062014805333 / 536870912)"
  "rnd (16000000) = Fin (16000000)"
  "rnd (5471788335103999 / 268435456) = Fin (5471788335103999 / 268435456)"
  "rnd (6189700196426900785142728477027 / 302231454903657293676544) = Fin (5497558138879999 / 268435456)"
  "rnd (64000000 / 3) = Fin (5726623061333333 / 268435456)"
  "rnd (52428800) = Fin (52428800)"
  "rnd (131072000) = Fin (131072000)"
  "rnd (419430400) = Fin (419430400)"
  "rnd (1048576000) = Fin (1048576000)"
  "rnd (9671406556917033397649408 / 1152921504606847) = Fin (8388608000)"
  "rnd (8388608000) = Fin (8388608000)"
  "rnd (16384000000) = Fin (16384000000)"
  "rnd (17179869184) = Fin (17179869184)"
  "rnd (131072000000) = Fin (131072000000)"
proof -
  show "rnd (- (697784483673052943 / 2199023255552)) = Fin (- (2725720639347863 / 8589934592))"
    using rnd_core [of 34 "- (697784483673052943 / 2199023255552)" 5451441278695726] by simp
  show "rnd (- (185646820889513 / 34359738368)) = Fin (- (185646820889513 / 34359738368))"
    using rnd_core [of 40 "- (185646820889513 / 34359738368)" 5940698268464416] by simp
  show "rnd (125 / 131072) = Fin (125 / 131072)"
    using rnd_core [of 63 "125 / 131072" 8796093022208000] by simp
  show "rnd (1 / 1000) = Fin (1152921504606847 / 1152921504606846976)"
    using rnd_core [of 62 "1 / 1000" 4611686018427388] by simp
  show "rnd (1 / 10) = Fin (3602879701896397 / 36028797018963968)"
    using rnd_core [of 56 "1 / 10" 7205759403792794] by simp
  show "rnd (1 / 2) = Fin (1 / 2)"
    using rnd_core [of 53 "1 / 2" 4503599627370496] by simp
  show "rnd (56777766148078338444803643799335 / 81129638414606681695789005144064) = Fin (393974895402371 / 562949953421312)"
    using rnd_core [of 53 "56777766148078338444803643799335 / 81129638414606681695789005144064" 6303598326437936] by simp
  show "rnd (63086406831198156529719380643781 / 81129638414606681695789005144064) = Fin (7003998140486595 / 9007199254740992)"
    using rnd_core [of 53 "63086406831198156529719380643781 / 81129638414606681695789005144064" 7003998140486595] by simp
  show "rnd (8762000948777521515058821498667 / 10141204801825835211973625643008) = Fin (7782220156096217 / 9007199254740992)"
    using rnd_core [of 53 "8762000948777521515058821498667 / 10141204801825835211973625643008" 7782220156096217] by simp
  show "rnd (9 / 10) = Fin (8106479329266893 / 9007199254740992)"
    using rnd_core [of 53 "9 / 10" 8106479329266893] by simp
  show "rnd (24 / 25) = Fin (1080863910568919 / 1125899906842624)"
    using rnd_core [of 53 "24 / 25" 8646911284551352] by simp
  show "rnd (1) = Fin (1)"
    using rnd_core [of 52 "1" 4503599627370496] by simp
  show "rnd (107 / 100) = Fin (4818851601286431 / 4503599627370496)"
    using rnd_core [of 52 "107 / 100" 4818851601286431] by simp
  show "rnd (2) = Fin (2)"
    using rnd_core [of 51 "2" 4503599627370496] by simp
  show "rnd (55) = Fin (55)"
    using rnd_core [of 47 "55" 7740561859543040] by simp
  show "rnd (3602879701896397 / 35184372088832) = Fin (3602879701896397 / 35184372088832)"
    using rnd_core [of 46 "3602879701896397 / 35184372088832" 7205759403792794] by simp
  show "rnd (200) = Fin (200)"
    using rnd_core [of 45 "200" 7036874417766400] by simp
  show "rnd (120471290032160775 / 562949953421312) = Fin (214)"
    using rnd_core [of 45 "120471290032160775 / 562949953421312" 7529455627010048] by simp
  show "rnd (12000125 / 16384) = Fin (12000125 / 16384)"
    using rnd_core [of 43 "12000125 / 16384" 6442518052864000] by simp
  show "rnd (991) = Fin (991)"
    using rnd_core [of 43 "991" 8716928185008128] by simp
  show "rnd (991163 / 1000) = Fin (2179590487042687 / 2199023255552)"
    using rnd_core [of 43 "991163 / 1000" 8718361948170748] by simp
  show "rnd (1024) = Fin (1024)"
    using rnd_core [of 42 "1024" 4503599627370496] by simp
  show "rnd (4775481936874853121 / 4503599627370496) = Fin (4663556578979349 / 4398046511104)"
    using rnd_core [of 42 "4775481936874853121 / 4503599627370496" 4663556578979349] by simp
  show "rnd (1111) = Fin (1111)"
    using rnd_core [of 42 "1111" 4886229673836544] by simp
  show "rnd (1111959 / 1000) = Fin (4890447400440693 / 4398046511104)"
    using rnd_core [of 42 "1111959 / 1000" 4890447400440693] by simp
  show "rnd (5353744129029224841 / 4503599627370496) = Fin (2614132875502551 / 2199023255552)"
    using rnd_core [of 42 "5353744129029224841 / 4503599627370496" 5228265751005102] by simp
  show "rnd (1246) = Fin (1246)"
    using rnd_core [of 42 "1246" 5479965952835584] by simp
  show "rnd (1246177 / 1000) = Fin (5480744407068049 / 4398046511104)"
    using rnd_core [of 42 "1246177 / 1000" 5480744407068049] by simp
  show "rnd (3002144547601446513 / 2251799813685248) = Fin (5863563569534075 / 4398046511104)"
    using rnd_core [of 42 "3002144547601446513 / 2251799813685248" 5863563569534075] by simp
  show "rnd (3323069989462289988744484292021 / 1237940039285380274899124224) = Fin (5902958103587057 / 2199023255552)"
    using rnd_core [of 41 "3323069989462289988744484292021 / 1237940039285380274899124224" 5902958103587057] by simp
  show "rnd (3602879701896397 / 1288490188800) = Fin (3074457345618259 / 1099511627776)"
    using rnd_core [of 41 "3602879701896397 / 1288490188800" 6148914691236518] by simp
  show "rnd (160229630492541 / 34359738368) = Fin (160229630492541 / 34359738368)"
    using rnd_core [of 40 "160229630492541 / 34359738368" 5127348175761312] by simp
  show "rnd (20383) = Fin (20383)"
    using rnd_core [of 38 "20383" 5602836377239552] by simp
  show "rnd (20383999 / 1000) = Fin (5603110980268589 / 274877906944)"
    using rnd_core [of 38 "20383999 / 1000" 5603110980268589] by simp
  show "rnd (98222652189021323073 / 4503599627370496) = Fin (5995034923646321 / 274877906944)"
    using rnd_core [of 38 "98222652189021323073 / 4503599627370496" 5995034923646321] by simp
  show "rnd (51200) = Fin (51200)"
    using rnd_core [of 37 "51200" 7036874417766400] by simp
  show "rnd (28038403036088070433455297630149 / 309485009821345068724781056) = Fin (3112888062438487 / 34359738368)"
    using rnd_core [of 36 "28038403036088070433455297630149 / 309485009821345068724781056" 6225776124876974] by simp
  show "rnd (96000) = Fin (96000)"
    using rnd_core [of 36 "96000" 6597069766656000] by simp
  show "rnd (7427717606964737071069126473373 / 77371252455336267181195264) = Fin (96001)"
    using rnd_core [of 36 "7427717606964737071069126473373 / 77371252455336267181195264" 6597138486132736] by simp
  show "rnd (2400025 / 24) = Fin (6872019256388267 / 68719476736)"
    using rnd_core [of 36 "2400025 / 24" 6872019256388267] by simp
  show "rnd (3894222643901120793455466284843 / 38685626227668133590597632) = Fin (3458764513820541 / 34359738368)"
    using rnd_core [of 36 "3894222643901120793455466284843 / 38685626227668133590597632" 6917529027641082] by simp
  show "rnd (524288 / 5) = Fin (3602879701896397 / 34359738368)"
    using rnd_core [of 36 "524288 / 5" 7205759403792794] by simp
  show "rnd (3602879701896397 / 34359738368) = Fin (3602879701896397 / 34359738368)"
    using rnd_core [of 36 "3602879701896397 / 34359738368" 7205759403792794] by simp
  show "rnd (128000) = Fin (128000)"
    using rnd_core [of 36 "128000" 8796093022208000] by simp
  show "rnd (320000) = Fin (320000)"
    using rnd_core [of 34 "320000" 5497558138880000] by simp
  show "rnd (12000125 / 16) = Fin (12000125 / 16)"
    using rnd_core [of 33 "12000125 / 16" 6442518052864000] by simp
  show "rnd (3602879701896397 / 4294967296) = Fin (3602879701896397 / 4294967296)"
    using rnd_core [of 33 "3602879701896397 / 4294967296" 7205759403792794] by simp
  show "rnd (2128507616620865 / 2147483648) = Fin (2128507616620865 / 2147483648)"
    using rnd_core [of 33 "2128507616620865 / 2147483648" 8514030466483460] by simp
  show "rnd (1048576) = Fin (1048576)"
    using rnd_core [of 32 "1048576" 4503599627370496] by simp
  show "rnd (42057604554132099179411001839295 / 38685626227668133590597632) = Fin (2334666046828865 / 2147483648)"
    using rnd_core [of 32 "42057604554132099179411001839295 / 38685626227668133590597632" 4669332093657730] by simp
  show "rnd (4775829910314811 / 4294967296) = Fin (4775829910314811 / 4294967296)"
    using rnd_core [of 32 "4775829910314811 / 4294967296" 4775829910314811] by simp
  show "rnd (46730671726813445534278725319437 / 38685626227668133590597632) = Fin (5188146770730811 / 4294967296)"
    using rnd_core [of 32 "46730671726813445534278725319437 / 38685626227668133590597632" 5188146770730811] by simp
  show "rnd (2676145331309117 / 2147483648) = Fin (2676145331309117 / 2147483648)"
    using rnd_core [of 32 "2676145331309117 / 2147483648" 5352290662618234] by simp
  show "rnd (6490371073168533935183170095459 / 4835703278458516698824704) = Fin (2882303761517117 / 2147483648)"
    using rnd_core [of 32 "6490371073168533935183170095459 / 4835703278458516698824704" 5764607523034234] by simp
  show "rnd (4194304 / 3) = Fin (6004799503160661 / 4294967296)"
    using rnd_core [of 32 "4194304 / 3" 6004799503160661] by simp
  show "rnd (12000125 / 2) = Fin (12000125 / 2)"
    using rnd_core [of 30 "12000125 / 2" 6442518052864000] by simp
  show "rnd (8388608) = Fin (8388608)"
    using rnd_core [of 29 "8388608" 4503599627370496] by simp
  show "rnd (5577959926661119 / 536870912) = Fin (5577959926661119 / 536870912)"
    using rnd_core [of 29 "5577959926661119 / 536870912" 5577959926661119] by simp
  show "rnd (6338253001141146412633065245027 / 604462909807314587353088) = Fin (5629499534213119 / 536870912)"
    using rnd_core [of 29 "6338253001141146412633065245027 / 604462909807314587353088" 5629499534213119] by simp
  show "rnd (32768000 / 3) = Fin (5864062014805333 / 536870912)"
    using rnd_core [of 29 "32768000 / 3" 5864062014805333] by simp
  show "rnd (16000000) = Fin (16000000)"
    using rnd_core [of 29 "16000000" 8589934592000000] by simp
  show "rnd (5471788335103999 / 268435456) = Fin (5471788335103999 / 268435456)"
    using rnd_core [of 28 "5471788335103999 / 268435456" 5471788335103999] by simp
  show "rnd (6189700196426900785142728477027 / 302231454903657293676544) = Fin (5497558138879999 / 268435456)"
    using rnd_core [of 28 "6189700196426900785142728477027 / 302231454903657293676544" 5497558138879999] by simp
  show "rnd (64000000 / 3) = Fin (5726623061333333 / 268435456)"
    using rnd_core [of 28 "64000000 / 3" 5726623061333333] by simp
  show "rnd (52428800) = Fin (52428800)"
    using rnd_core [of 27 "52428800" 7036874417766400] by simp
  show "rnd (131072000) = Fin (131072000)"
    using rnd_core [of 26 "131072000" 8796093022208000] by simp
  show "rnd (419430400) = Fin (419430400)"
    using rnd_core [of 24 "419430400" 7036874417766400] by simp
  show "rnd (1048576000) = Fin (1048576000)"
    using rnd_core [of 23 "1048576000" 8796093022208000] by simp
  show "rnd (9671406556917033397649408 / 1152921504606847) = Fin (8388608000)"
    using rnd_core [of 20 "9671406556917033397649408 / 1152921504606847" 8796093022208000] by simp
  show "rnd (8388608000) = Fin (8388608000)"
    using rnd_core [of 20 "8388608000" 8796093022208000] by simp
  show "rnd (16384000000) = Fin (16384000000)"
    using rnd_core [of 19 "16384000000" 8589934592000000] by simp
  show "rnd (17179869184) = Fin (17179869184)"
    using rnd_core [of 18 "17179869184" 4503599627370496] by simp
  show "rnd (131072000000) = Fin (131072000000)"
    using rnd_core [of 16 "131072000000" 8589934592000000] by simp
qed

lemmas float_eval =
  calc_bitrates_def make_cmd_def py_max2_def float_of_int_def int_truediv_def Let_def
  rnd_values rnd_zero floor_rat_numeral ceiling_neg_rat_numeral

section \<open>Properties of the bitrate estimator\<close>

text \<open>
  Three runs of the estimator and of the command's bitrates where the roundings show.
  At 125 MB and 96 s the product with the safety factor rounds down and the result is
  10389759, one below the exact quotient. At 12000125/16777216 MB and 60 s it rounds up
  to 96001, so the remainder is 1 and the estimate is the 200000 floor. At 15625 MB and
  6144 s the estimate is 20383999 and the command asks for 20383k, 21809k and 40766k.
\<close>

lemma calc_bitrates_rounding_examples:
  "calc_bitrates (Fin 125) (Fin 96) 96 (rnd (96 / 100)) = Inr 10389759"
  "calc_bitrates (Fin (12000125 / 16777216)) (Fin 60) 96 (rnd (96 / 100)) = Inr 200000"
  "calc_bitrates (Fin 15625) (Fin 6144) 96 (rnd (96 / 100)) = Inr 20383999"
  "make_cmd 20383999 = Inr \<lparr>video_k = 20383, maxrate_k = 21809, bufsize_k = 40766\<rparr>"
  by (simp_all add: float_eval)

lemma py_int_le0: "(if 0 \<le> r then \<lfloor>r\<rfloor> else \<lceil>r\<rceil>) \<le> 0 \<longleftrightarrow> r < (1 :: rat)"
proof (cases "0 \<le> r")
  case True
  then show ?thesis by (simp add: floor_le_iff)
next
  case False
  then have "r < 0" by simp
  then have "\<lceil>r\<rceil> \<le> 0" by (simp add: ceiling_le_iff)
  with \<open>r < 0\<close> show ?thesis by simp
qed

lemma fdiv_defined: "b \<noteq> Fin 0 \<Longrightarrow> \<exists>q. fdiv a b = Inr q"
  by (cases b; cases a) simp_all

lemma divisor_nonzero:
  "(if fgt (rnd (1 / 1000)) duration_s then rnd (1 / 1000) else duration_s) \<noteq> Fin 0"
  by (cases duration_s) (simp_all add: rnd_values)

text \<open>
  Claim C3, amended. For \<open>target_mb > 0\<close>, \<open>duration_s > 0\<close>, \<open>audio_kbps \<ge> 0\<close> and
  \<open>safety > 0\<close>, every operation in double arithmetic: the target is taken in binary
  megabytes (\<open>* 1024 * 1024\<close>, then \<open>* 8\<close> bits), the division is by
  \<open>max(duration_s, 0.001)\<close> and never raises, and its quotient times \<open>safety\<close> is the total
  bitrate; the audio bitrate is \<open>audio_kbps * 1000\<close>. The remainder after the audio bitrate
  is truncated to an integer before the test, so \<open>Target size too small\<close> is raised exactly
  when a finite remainder is below 1; otherwise the result is the truncated remainder,
  raised to 200000 when it is less. A remainder that is NaN raises \<open>ValueError\<close>; an infinite
  one, and an audio bitrate too large for a double, raise \<open>OverflowError\<close>.
\<close>

theorem calc_bitrates_spec:
  assumes "fgt target_mb (Fin 0)" and "fgt duration_s (Fin 0)"
    and "0 \<le> audio_kbps" and "fgt safety (Fin 0)"
  shows "\<exists>total.
      fdiv (fmul (fmul (fmul target_mb (Fin 1024)) (Fin 1024)) (Fin 8))
           (if fgt (rnd (1 / 1000)) duration_s then rnd (1 / 1000) else duration_s) = Inr total
      \<and> calc_bitrates target_mb duration_s audio_kbps safety =
          (case float_of_int (audio_kbps * 1000) of
             Inl e \<Rightarrow> Inl e
           | Inr audio_bps \<Rightarrow>
               (case fsub (fmul total safety) audio_bps of
                  Fin remainder \<Rightarrow>
                    if remainder < 1 then Inl TargetSizeTooSmall
                    else Inr (max \<lfloor>remainder\<rfloor> 200000)
                | NaN \<Rightarrow> Inl ValueError
                | _ \<Rightarrow> Inl OverflowError))"
proof -
  from fdiv_defined [OF divisor_nonzero]
  obtain total where t:
    "fdiv (fmul (fmul (fmul target_mb (Fin 1024)) (Fin 1024)) (Fin 8))
          (if fgt (rnd (1 / 1000)) duration_s then rnd (1 / 1000) else duration_s) = Inr total"
    by blast
  have c: "calc_bitrates target_mb duration_s audio_kbps safety =
          (case float_of_int (audio_kbps * 1000) of
             Inl e \<Rightarrow> Inl e
           | Inr audio_bps \<Rightarrow>
               (case py_int (fsub (fmul total safety) audio_bps) of
                  Inl e \<Rightarrow> Inl e
                | Inr video_bps \<Rightarrow>
                    if video_bps \<le> 0 then Inl TargetSizeTooSmall
                    else Inr (max video_bps 200000)))"
    using t by (simp add: calc_bitrates_def py_max2_def Let_def)
  have p: "(case py_int x of
              Inl e \<Rightarrow> Inl e
            | Inr video_bps \<Rightarrow>
                if video_bps \<le> 0 then Inl TargetSizeTooSmall
                else Inr (max video_bps 200000)) =
           (case x of
              Fin remainder \<Rightarrow>
                if remainder < 1 then Inl TargetSizeTooSmall
                else Inr (max \<lfloor>remainder\<rfloor> 200000)
            | NaN \<Rightarrow> Inl ValueError
            | _ \<Rightarrow> Inl OverflowError)" for x
  proof (cases x)
    case (Fin r)
    show ?thesis
    proof (cases "r < 1")
      case True
      then have "(if 0 \<le> r then \<lfloor>r\<rfloor> else \<lceil>r\<rceil>) \<le> 0" using py_int_le0 [of r] by blast
      with True Fin show ?thesis by simp
    next
      case False
      then have "\<not> (if 0 \<le> r then \<lfloor>r\<rfloor> else \<lceil>r\<rceil>) \<le> 0" using py_int_le0 [of r] by blast
      moreover from False have "0 \<le> r" by simp
      ultimately show ?thesis using False Fin by simp
    qed
  qed simp_all
  from t c show ?thesis unfolding p by blast
qed

theorem calc_bitrates_spec_witness:
  "fgt (Fin 50) (Fin 0) \<and> fgt (Fin 300) (Fin 0) \<and> (0 :: int) \<le> 96 \<and> fgt (rnd (96 / 100)) (Fin 0)
   \<and> calc_bitrates (Fin 50) (Fin 300) 96 (rnd (96 / 100)) = Inr 1246177
   \<and> calc_bitrates (rnd (1 / 10)) (Fin 300) 320 (rnd (96 / 100)) = Inl TargetSizeTooSmall
   \<and> calc_bitrates (Fin 1) (Fin 80) 96 (rnd (96 / 100)) = Inr 200000"
proof -
  have h: "fgt (Fin 50) (Fin 0)" "fgt (Fin 300) (Fin 0)" "(0 :: int) \<le> 96"
    "fgt (rnd (96 / 100)) (Fin 0)"
    by (simp_all add: rnd_values)
  from calc_bitrates_spec [OF h]
  obtain total where
    t: "fdiv (fmul (fmul (fmul (Fin 50) (Fin 1024)) (Fin 1024)) (Fin 8))
          (if fgt (rnd (1 / 1000)) (Fin 300) then rnd (1 / 1000) else Fin 300) = Inr total"
    and c: "calc_bitrates (Fin 50) (Fin 300) 96 (rnd (96 / 100)) =
          (case float_of_int (96 * 1000) of
             Inl e \<Rightarrow> Inl e
           | Inr audio_bps \<Rightarrow>
               (case fsub (fmul total (rnd (96 / 100))) audio_bps of
                  Fin remainder \<Rightarrow>
                    if remainder < 1 then Inl TargetSizeTooSmall
                    else Inr (max \<lfloor>remainder\<rfloor> 200000)
                | NaN \<Rightarrow> Inl ValueError
                | _ \<Rightarrow> Inl OverflowError))"
    by blast
  have "fdiv (fmul (fmul (fmul (Fin 50) (Fin 1024)) (Fin 1024)) (Fin 8))
          (if fgt (rnd (1 / 1000)) (Fin 300) then rnd (1 / 1000) else Fin 300)
        = Inr (Fin (6004799503160661 / 4294967296))"
    by (simp add: rnd_values)
  with t have tv: "total = Fin (6004799503160661 / 4294967296)" by simp
  have w1: "calc_bitrates (Fin 50) (Fin 300) 96 (rnd (96 / 100)) = Inr 1246177"
    unfolding c tv by (simp add: float_of_int_def rnd_values floor_rat_numeral)
  have w2: "calc_bitrates (rnd (1 / 10)) (Fin 300) 320 (rnd (96 / 100)) = Inl TargetSizeTooSmall"
    by (simp add: float_eval)
  have w3: "calc_bitrates (Fin 1) (Fin 80) 96 (rnd (96 / 100)) = Inr 200000"
    by (simp add: float_eval)
  from h w1 w2 w3 show ?thesis by blast
qed

text \<open>
  A remainder of one half is positive, and the estimator raises on it: \<open>int\<close> turns it
  into 0 before the comparison. A duration of 1/2048 s is positive and below 0.001: the
  estimator divides by 0.001 and returns 8388608000, where the division by the duration
  gives 17179869184. A target of \<open>2^1023\<close> MB, and an infinite one, are positive: the
  remainder is an infinity and \<open>int\<close> raises \<open>OverflowError\<close>.
\<close>

theorem calc_bitrates_remainder_counterexample:
  "fgt (Fin 1) (Fin 0) \<and> fgt (Fin 16777216) (Fin 0) \<and> (0 :: int) \<le> 0
   \<and> fdiv (fmul (fmul (fmul (Fin 1) (Fin 1024)) (Fin 1024)) (Fin 8)) (Fin 16777216) = Inr (Fin (1 / 2))
   \<and> float_of_int (0 * 1000) = Inr (Fin 0)
   \<and> fsub (fmul (Fin (1 / 2)) (Fin 1)) (Fin 0) = Fin (1 / 2)
   \<and> (0 :: rat) < 1 / 2
   \<and> calc_bitrates (Fin 1) (Fin 16777216) 0 (Fin 1) = Inl TargetSizeTooSmall
   \<and> fgt (Fin (1 / 2048)) (Fin 0)
   \<and> fdiv (fmul (fmul (fmul (Fin 1) (Fin 1024)) (Fin 1024)) (Fin 8)) (Fin (1 / 2048)) = Inr (Fin 17179869184)
   \<and> calc_bitrates (Fin 1) (Fin (1 / 2048)) 0 (Fin 1) = Inr 8388608000
   \<and> fgt (Fin (2 ^ 1023)) (Fin 0) \<and> fgt (Fin 60) (Fin 0)
   \<and> calc_bitrates (Fin (2 ^ 1023)) (Fin 60) 96 (Fin 1) = Inl OverflowError
   \<and> fgt PInf (Fin 0)
   \<and> calc_bitrates PInf (Fin 60) 96 (Fin 1) = Inl OverflowError"
  by (simp add: float_eval rnd_overflow)

section \<open>Properties of the retry loop\<close>

lemma decayed_shift: "decayed (fmul s (rnd (9 / 10))) i = decayed s (Suc i)"
  by (induction i) simp_all

lemma decayed_2: "decayed s 2 = fmul (fmul s (rnd (9 / 10))) (rnd (9 / 10))"
  by (simp add: numeral_2_eq_2)

lemma retry_loop_exhausted:
  assumes "\<forall>i<n. \<exists>v c sz m. calc_bitrates t d a (decayed s i) = Inr v \<and> make_cmd v = Inr c
             \<and> enc (length runs + i) c = Inr sz
             \<and> int_truediv (int sz) (1024 * 1024) = Inr m \<and> \<not> fle m t"
  shows "\<exists>new. retry_loop enc t d a out n s runs = (Inl (FailedToReachTarget t out), runs @ new)
           \<and> length new = n
           \<and> (\<forall>i<n. fst (new ! i) = decayed s i
                 \<and> (\<exists>v. calc_bitrates t d a (decayed s i) = Inr v \<and> make_cmd v = Inr (snd (new ! i))))"
  using assms
proof (induction n arbitrary: s runs)
  case 0
  then show ?case by simp
next
  case (Suc n)
  from Suc.prems have "\<exists>v c sz m. calc_bitrates t d a (decayed s 0) = Inr v \<and> make_cmd v = Inr c
             \<and> enc (length runs + 0) c = Inr sz
             \<and> int_truediv (int sz) (1024 * 1024) = Inr m \<and> \<not> fle m t"
    by blast
  then obtain v c sz m where first:
    "calc_bitrates t d a s = Inr v" "make_cmd v = Inr c" "enc (length runs) c = Inr sz"
    "int_truediv (int sz) (1024 * 1024) = Inr m" "\<not> fle m t"
    by auto
  have step: "retry_loop enc t d a out (Suc n) s runs =
                retry_loop enc t d a out n (fmul s (rnd (9 / 10))) (runs @ [(s, c)])"
    using first by (simp add: Let_def)
  have h: "\<forall>i<n. \<exists>v c' sz m. calc_bitrates t d a (decayed (fmul s (rnd (9 / 10))) i) = Inr v
             \<and> make_cmd v = Inr c' \<and> enc (length (runs @ [(s, c)]) + i) c' = Inr sz
             \<and> int_truediv (int sz) (1024 * 1024) = Inr m \<and> \<not> fle m t"
  proof (intro allI impI)
    fix i assume "i < n"
    then have "Suc i < Suc n" by simp
    with Suc.prems have "\<exists>v c' sz m. calc_bitrates t d a (decayed s (Suc i)) = Inr v
             \<and> make_cmd v = Inr c' \<and> enc (length runs + Suc i) c' = Inr sz
             \<and> int_truediv (int sz) (1024 * 1024) = Inr m \<and> \<not> fle m t"
      by blast
    then show "\<exists>v c' sz m. calc_bitrates t d a (decayed (fmul s (rnd (9 / 10))) i) = Inr v
             \<and> make_cmd v = Inr c' \<and> enc (length (runs @ [(s, c)]) + i) c' = Inr sz
             \<and> int_truediv (int sz) (1024 * 1024) = Inr m \<and> \<not> fle m t"
      unfolding decayed_shift by simp
  qed
  from Suc.IH [OF h] obtain new where new:
    "retry_loop enc t d a out n (fmul s (rnd (9 / 10))) (runs @ [(s, c)]) =
       (Inl (FailedToReachTarget t out), (runs @ [(s, c)]) @ new)"
    "length new = n"
    "\<forall>i<n. fst (new ! i) = decayed (fmul s (rnd (9 / 10))) i
        \<and> (\<exists>v. calc_bitrates t d a (decayed (fmul s (rnd (9 / 10))) i) = Inr v
              \<and> make_cmd v = Inr (snd (new ! i)))"
    by blast
  have "\<forall>i<Suc n. fst (((s, c) # new) ! i) = decayed s i
          \<and> (\<exists>v. calc_bitrates t d a (decayed s i) = Inr v
                \<and> make_cmd v = Inr (snd (((s, c) # new) ! i)))"
  proof (intro allI impI)
    fix i assume i: "i < Suc n"
    show "fst (((s, c) # new) ! i) = decayed s i
          \<and> (\<exists>v. calc_bitrates t d a (decayed s i) = Inr v
                \<and> make_cmd v = Inr (snd (((s, c) # new) ! i)))"
    proof (cases i)
      case 0
      with first(1,2) show ?thesis by simp
    next
      case (Suc j)
      with i have "j < n" by simp
      with new(3) have "fst (new ! j) = decayed (fmul s (rnd (9 / 10))) j
        \<and> (\<exists>v. calc_bitrates t d a (decayed (fmul s (rnd (9 / 10))) j) = Inr v
              \<and> make_cmd v = Inr (snd (new ! j)))"
        by blast
      then show ?thesis unfolding decayed_shift Suc by simp
    qed
  qed
  with step new(1,2) show ?case
    by (intro exI [of _ "(s, c) # new"]) simp
qed

lemma retry_loop_fits:
  assumes "k < n"
    and "\<forall>i<k. \<exists>v c sz m. calc_bitrates t d a (decayed s i) = Inr v \<and> make_cmd v = Inr c
             \<and> enc (length runs + i) c = Inr sz
             \<and> int_truediv (int sz) (1024 * 1024) = Inr m \<and> \<not> fle m t"
    and "\<exists>v c sz m. calc_bitrates t d a (decayed s k) = Inr v \<and> make_cmd v = Inr c
             \<and> enc (length runs + k) c = Inr sz
             \<and> int_truediv (int sz) (1024 * 1024) = Inr m \<and> fle m t"
  shows "\<exists>new. retry_loop enc t d a out n s runs = (Inr PNone, runs @ new)
           \<and> length new = Suc k
           \<and> (\<forall>i\<le>k. fst (new ! i) = decayed s i
                 \<and> (\<exists>v. calc_bitrates t d a (decayed s i) = Inr v \<and> make_cmd v = Inr (snd (new ! i))))"
  using assms
proof (induction n arbitrary: s runs k)
  case 0
  then show ?case by simp
next
  case (Suc n)
  show ?case
  proof (cases k)
    case 0
    with Suc.prems(3) obtain v c sz m where first:
      "calc_bitrates t d a s = Inr v" "make_cmd v = Inr c" "enc (length runs) c = Inr sz"
      "int_truediv (int sz) (1024 * 1024) = Inr m" "fle m t"
      by auto
    have "retry_loop enc t d a out (Suc n) s runs = (Inr PNone, runs @ [(s, c)])"
      using first by (simp add: Let_def)
    with 0 first(1,2) show ?thesis by (intro exI [of _ "[(s, c)]"]) simp
  next
    case (Suc k')
    note ks = Suc
    from Suc.prems(2) ks have "\<exists>v c sz m. calc_bitrates t d a (decayed s 0) = Inr v \<and> make_cmd v = Inr c
             \<and> enc (length runs + 0) c = Inr sz
             \<and> int_truediv (int sz) (1024 * 1024) = Inr m \<and> \<not> fle m t"
      by blast
    then obtain v c sz m where first:
      "calc_bitrates t d a s = Inr v" "make_cmd v = Inr c" "enc (length runs) c = Inr sz"
      "int_truediv (int sz) (1024 * 1024) = Inr m" "\<not> fle m t"
      by auto
    have step: "retry_loop enc t d a out (Suc n) s runs =
                  retry_loop enc t d a out n (fmul s (rnd (9 / 10))) (runs @ [(s, c)])"
      using first by (simp add: Let_def)
    have k': "k' < n" using ks Suc.prems(1) by simp
    have h2: "\<forall>i<k'. \<exists>v c' sz m. calc_bitrates t d a (decayed (fmul s (rnd (9 / 10))) i) = Inr v
             \<and> make_cmd v = Inr c' \<and> enc (length (runs @ [(s, c)]) + i) c' = Inr sz
             \<and> int_truediv (int sz) (1024 * 1024) = Inr m \<and> \<not> fle m t"
    proof (intro allI impI)
      fix i assume "i < k'"
      then have "Suc i < k" using ks by simp
      with Suc.prems(2) have "\<exists>v c' sz m. calc_bitrates t d a (decayed s (Suc i)) = Inr v
             \<and> make_cmd v = Inr c' \<and> enc (length runs + Suc i) c' = Inr sz
             \<and> int_truediv (int sz) (1024 * 1024) = Inr m \<and> \<not> fle m t"
        by blast
      then show "\<exists>v c' sz m. calc_bitrates t d a (decayed (fmul s (rnd (9 / 10))) i) = Inr v
             \<and> make_cmd v = Inr c' \<and> enc (length (runs @ [(s, c)]) + i) c' = Inr sz
             \<and> int_truediv (int sz) (1024 * 1024) = Inr m \<and> \<not> fle m t"
        unfolding decayed_shift by simp
    qed
    have h3: "\<exists>v c' sz m. calc_bitrates t d a (decayed (fmul s (rnd (9 / 10))) k') = Inr v
             \<and> make_cmd v = Inr c' \<and> enc (length (runs @ [(s, c)]) + k') c' = Inr sz
             \<and> int_truediv (int sz) (1024 * 1024) = Inr m \<and> fle m t"
      using Suc.prems(3) ks unfolding decayed_shift by simp
    from Suc.IH [OF k' h2 h3] obtain new where new:
      "retry_loop enc t d a out n (fmul s (rnd (9 / 10))) (runs @ [(s, c)]) =
         (Inr PNone, (runs @ [(s, c)]) @ new)"
      "length new = Suc k'"
      "\<forall>i\<le>k'. fst (new ! i) = decayed (fmul s (rnd (9 / 10))) i
          \<and> (\<exists>v. calc_bitrates t d a (decayed (fmul s (rnd (9 / 10))) i) = Inr v
                \<and> make_cmd v = Inr (snd (new ! i)))"
      by blast
    have "\<forall>i\<le>k. fst (((s, c) # new) ! i) = decayed s i
            \<and> (\<exists>v. calc_bitrates t d a (decayed s i) = Inr v
                  \<and> make_cmd v = Inr (snd (((s, c) # new) ! i)))"
    proof (intro allI impI)
      fix i assume i: "i \<le> k"
      show "fst (((s, c) # new) ! i) = decayed s i
            \<and> (\<exists>v. calc_bitrates t d a (decayed s i) = Inr v
                  \<and> make_cmd v = Inr (snd (((s, c) # new) ! i)))"
      proof (cases i)
        case 0
        with first(1,2) show ?thesis by simp
      next
        case (Suc j)
        with i ks have "j \<le> k'" by simp
        with new(3) have "fst (new ! j) = decayed (fmul s (rnd (9 / 10))) j
          \<and> (\<exists>v. calc_bitrates t d a (decayed (fmul s (rnd (9 / 10))) j) = Inr v
                \<and> make_cmd v = Inr (snd (new ! j)))"
          by blast
        then show ?thesis unfolding decayed_shift Suc by simp
      qed
    qed
    with step new(1,2) ks show ?thesis
      by (intro exI [of _ "(s, c) # new"]) simp
  qed
qed

text \<open>
  Claim C4, amended. For every retries count \<open>r \<ge> 0\<close>: attempt \<open>i\<close> uses the safety factor
  after \<open>i\<close> multiplications by 0.9 and issues the command built from the estimate at that
  factor. If for each \<open>i \<le> r\<close> the estimate at that factor is feasible, the command
  can be built, and the encoder, given that command as run \<open>i\<close>, leaves an output whose size
  in MB exceeds the target, then the loop runs the encoder exactly \<open>r + 1\<close> times, with
  these factors and commands, and raises the error that reports the target and the output
  path. If instead attempt \<open>k \<le> r\<close> is the first whose output is at most the target, the
  loop returns after exactly \<open>k + 1\<close> runs.
\<close>

theorem transcode_retry:
  assumes "0 \<le> retries"
  shows "((\<forall>i\<le>nat retries. \<exists>v c sz m.
             calc_bitrates target_mb duration audio (decayed safety i) = Inr v
             \<and> make_cmd v = Inr c \<and> enc i c = Inr sz
             \<and> int_truediv (int sz) (1024 * 1024) = Inr m \<and> \<not> fle m target_mb)
          \<longrightarrow> (\<exists>runs. transcode enc target_mb duration audio out_path retries safety
                         = (Inl (FailedToReachTarget target_mb out_path), runs)
                  \<and> length runs = nat retries + 1
                  \<and> (\<forall>i\<le>nat retries. fst (runs ! i) = decayed safety i
                        \<and> (\<exists>v. calc_bitrates target_mb duration audio (decayed safety i) = Inr v
                              \<and> make_cmd v = Inr (snd (runs ! i))))))
       \<and> (\<forall>k\<le>nat retries.
            (\<forall>i<k. \<exists>v c sz m.
               calc_bitrates target_mb duration audio (decayed safety i) = Inr v
               \<and> make_cmd v = Inr c \<and> enc i c = Inr sz
               \<and> int_truediv (int sz) (1024 * 1024) = Inr m \<and> \<not> fle m target_mb)
            \<and> (\<exists>v c sz m.
               calc_bitrates target_mb duration audio (decayed safety k) = Inr v
               \<and> make_cmd v = Inr c \<and> enc k c = Inr sz
               \<and> int_truediv (int sz) (1024 * 1024) = Inr m \<and> fle m target_mb)
            \<longrightarrow> (\<exists>runs. transcode enc target_mb duration audio out_path retries safety = (Inr PNone, runs)
                    \<and> length runs = k + 1
                    \<and> (\<forall>i\<le>k. fst (runs ! i) = decayed safety i
                          \<and> (\<exists>v. calc_bitrates target_mb duration audio (decayed safety i) = Inr v
                                \<and> make_cmd v = Inr (snd (runs ! i))))))"
proof (intro conjI impI allI)
  assume h: "\<forall>i\<le>nat retries. \<exists>v c sz m.
             calc_bitrates target_mb duration audio (decayed safety i) = Inr v
             \<and> make_cmd v = Inr c \<and> enc i c = Inr sz
             \<and> int_truediv (int sz) (1024 * 1024) = Inr m \<and> \<not> fle m target_mb"
  have n: "nat (retries + 1) = Suc (nat retries)" using assms by simp
  have a: "\<forall>i<Suc (nat retries). \<exists>v c sz m.
             calc_bitrates target_mb duration audio (decayed safety i) = Inr v
             \<and> make_cmd v = Inr c \<and> enc (length ([] :: (pyfloat \<times> cmd) list) + i) c = Inr sz
             \<and> int_truediv (int sz) (1024 * 1024) = Inr m \<and> \<not> fle m target_mb"
    using h by (simp add: less_Suc_eq_le)
  from retry_loop_exhausted [OF a, of out_path]
  show "\<exists>runs. transcode enc target_mb duration audio out_path retries safety
                  = (Inl (FailedToReachTarget target_mb out_path), runs)
          \<and> length runs = nat retries + 1
          \<and> (\<forall>i\<le>nat retries. fst (runs ! i) = decayed safety i
                \<and> (\<exists>v. calc_bitrates target_mb duration audio (decayed safety i) = Inr v
                      \<and> make_cmd v = Inr (snd (runs ! i))))"
    unfolding transcode_def n by (simp add: less_Suc_eq_le)
next
  fix k
  assume k: "k \<le> nat retries"
    and h: "(\<forall>i<k. \<exists>v c sz m.
               calc_bitrates target_mb duration audio (decayed safety i) = Inr v
               \<and> make_cmd v = Inr c \<and> enc i c = Inr sz
               \<and> int_truediv (int sz) (1024 * 1024) = Inr m \<and> \<not> fle m target_mb)
            \<and> (\<exists>v c sz m.
               calc_bitrates target_mb duration audio (decayed safety k) = Inr v
               \<and> make_cmd v = Inr c \<and> enc k c = Inr sz
               \<and> int_truediv (int sz) (1024 * 1024) = Inr m \<and> fle m target_mb)"
  have n: "nat (retries + 1) = Suc (nat retries)" using assms by simp
  have kn: "k < Suc (nat retries)" using k by simp
  have a2: "\<forall>i<k. \<exists>v c sz m.
               calc_bitrates target_mb duration audio (decayed safety i) = Inr v
               \<and> make_cmd v = Inr c \<and> enc (length ([] :: (pyfloat \<times> cmd) list) + i) c = Inr sz
               \<and> int_truediv (int sz) (1024 * 1024) = Inr m \<and> \<not> fle m target_mb"
    using h by simp
  have a3: "\<exists>v c sz m.
               calc_bitrates target_mb duration audio (decayed safety k) = Inr v
               \<and> make_cmd v = Inr c \<and> enc (length ([] :: (pyfloat \<times> cmd) list) + k) c = Inr sz
               \<and> int_truediv (int sz) (1024 * 1024) = Inr m \<and> fle m target_mb"
    using h by simp
  from retry_loop_fits [OF kn a2 a3, of out_path]
  show "\<exists>runs. transcode enc target_mb duration audio out_path retries safety = (Inr PNone, runs)
          \<and> length runs = k + 1
          \<and> (\<forall>i\<le>k. fst (runs ! i) = decayed safety i
                \<and> (\<exists>v. calc_bitrates target_mb duration audio (decayed safety i) = Inr v
                      \<and> make_cmd v = Inr (snd (runs ! i))))"
    unfolding transcode_def n by simp
qed

theorem transcode_retry_witness:
  "(0 :: int) \<le> 2
   \<and> calc_bitrates (Fin 50) (Fin 300) 96 (decayed (rnd (96 / 100)) 0) = Inr 1246177
   \<and> make_cmd 1246177 = Inr \<lparr>video_k = 1246, maxrate_k = 1333, bufsize_k = 2492\<rparr>
   \<and> calc_bitrates (Fin 50) (Fin 300) 96 (decayed (rnd (96 / 100)) 1) = Inr 1111959
   \<and> make_cmd 1111959 = Inr \<lparr>video_k = 1111, maxrate_k = 1188, bufsize_k = 2222\<rparr>
   \<and> calc_bitrates (Fin 50) (Fin 300) 96 (decayed (rnd (96 / 100)) 2) = Inr 991163
   \<and> make_cmd 991163 = Inr \<lparr>video_k = 991, maxrate_k = 1060, bufsize_k = 1982\<rparr>
   \<and> (\<forall>i c. stub_encoder [] 57671680 i c = Inr 57671680)
   \<and> int_truediv (int 57671680) (1024 * 1024) = Inr (Fin 55) \<and> \<not> fle (Fin 55) (Fin 50)
   \<and> (\<exists>runs. transcode (stub_encoder [] 57671680) (Fin 50) (Fin 300) 96 ''out.mp4'' 2 (rnd (96 / 100))
                = (Inl (FailedToReachTarget (Fin 50) ''out.mp4''), runs)
        \<and> length runs = nat 2 + 1
        \<and> (\<forall>i\<le>nat 2. fst (runs ! i) = decayed (rnd (96 / 100)) i
              \<and> (\<exists>v. calc_bitrates (Fin 50) (Fin 300) 96 (decayed (rnd (96 / 100)) i) = Inr v
                    \<and> make_cmd v = Inr (snd (runs ! i)))))
   \<and> (1 :: nat) \<le> nat 2
   \<and> stub_encoder [57671680] 1000 0 \<lparr>video_k = 1246, maxrate_k = 1333, bufsize_k = 2492\<rparr> = Inr 57671680
   \<and> stub_encoder [57671680] 1000 1 \<lparr>video_k = 1111, maxrate_k = 1188, bufsize_k = 2222\<rparr> = Inr 1000
   \<and> int_truediv (int 1000) (1024 * 1024) = Inr (Fin (125 / 131072)) \<and> fle (Fin (125 / 131072)) (Fin 50)
   \<and> (\<exists>runs. transcode (stub_encoder [57671680] 1000) (Fin 50) (Fin 300) 96 ''out.mp4'' 2 (rnd (96 / 100))
                = (Inr PNone, runs)
        \<and> length runs = 1 + 1
        \<and> (\<forall>i\<le>1. fst (runs ! i) = decayed (rnd (96 / 100)) i
              \<and> (\<exists>v. calc_bitrates (Fin 50) (Fin 300) 96 (decayed (rnd (96 / 100)) i) = Inr v
                    \<and> make_cmd v = Inr (snd (runs ! i)))))
   \<and> transcode (stub_encoder [] 57671680) (Fin 50) (Fin 300) 96 ''out.mp4'' 2 (rnd (96 / 100))
       = (Inl (FailedToReachTarget (Fin 50) ''out.mp4''),
          [(Fin (1080863910568919 / 1125899906842624), \<lparr>video_k = 1246, maxrate_k = 1333, bufsize_k = 2492\<rparr>),
           (Fin (7782220156096217 / 9007199254740992), \<lparr>video_k = 1111, maxrate_k = 1188, bufsize_k = 2222\<rparr>),
           (Fin (7003998140486595 / 9007199254740992), \<lparr>video_k = 991, maxrate_k = 1060, bufsize_k = 1982\<rparr>)])
   \<and> transcode (stub_encoder [57671680] 1000) (Fin 50) (Fin 300) 96 ''out.mp4'' 2 (rnd (96 / 100))
       = (Inr PNone,
          [(Fin (1080863910568919 / 1125899906842624), \<lparr>video_k = 1246, maxrate_k = 1333, bufsize_k = 2492\<rparr>),
           (Fin (7782220156096217 / 9007199254740992), \<lparr>video_k = 1111, maxrate_k = 1188, bufsize_k = 2222\<rparr>)])"
proof -
  have c0: "calc_bitrates (Fin 50) (Fin 300) 96 (decayed (rnd (96 / 100)) 0) = Inr 1246177"
    by (simp add: float_eval)
  have m0: "make_cmd 1246177 = Inr \<lparr>video_k = 1246, maxrate_k = 1333, bufsize_k = 2492\<rparr>"
    by (simp add: float_eval)
  have c1: "calc_bitrates (Fin 50) (Fin 300) 96 (decayed (rnd (96 / 100)) 1) = Inr 1111959"
    by (simp add: float_eval)
  have m1: "make_cmd 1111959 = Inr \<lparr>video_k = 1111, maxrate_k = 1188, bufsize_k = 2222\<rparr>"
    by (simp add: float_eval)
  have c2: "calc_bitrates (Fin 50) (Fin 300) 96 (decayed (rnd (96 / 100)) 2) = Inr 991163"
    by (simp add: decayed_2 float_eval)
  have m2: "make_cmd 991163 = Inr \<lparr>video_k = 991, maxrate_k = 1060, bufsize_k = 1982\<rparr>"
    by (simp add: float_eval)
  have e: "\<forall>i c. stub_encoder [] 57671680 i c = Inr 57671680"
    by (simp add: stub_encoder_def)
  have s: "int_truediv (int 57671680) (1024 * 1024) = Inr (Fin 55)"
    by (simp add: float_eval)
  have f: "\<not> fle (Fin 55) (Fin 50)" by simp
  have e0: "stub_encoder [57671680] 1000 0 \<lparr>video_k = 1246, maxrate_k = 1333, bufsize_k = 2492\<rparr> = Inr 57671680"
    by (simp add: stub_encoder_def)
  have e1: "stub_encoder [57671680] 1000 1 \<lparr>video_k = 1111, maxrate_k = 1188, bufsize_k = 2222\<rparr> = Inr 1000"
    by (simp add: stub_encoder_def)
  have s1: "int_truediv (int 1000) (1024 * 1024) = Inr (Fin (125 / 131072))"
    by (simp add: float_eval)
  have f1: "fle (Fin (125 / 131072)) (Fin 50)" by simp
  have over: "\<forall>i\<le>nat 2. \<exists>v c sz m.
             calc_bitrates (Fin 50) (Fin 300) 96 (decayed (rnd (96 / 100)) i) = Inr v
             \<and> make_cmd v = Inr c \<and> stub_encoder [] 57671680 i c = Inr sz
             \<and> int_truediv (int sz) (1024 * 1024) = Inr m \<and> \<not> fle m (Fin 50)"
  proof (intro allI impI)
    fix i :: nat assume "i \<le> nat 2"
    then consider "i = 0" | "i = 1" | "i = 2" by fastforce
    then show "\<exists>v c sz m.
             calc_bitrates (Fin 50) (Fin 300) 96 (decayed (rnd (96 / 100)) i) = Inr v
             \<and> make_cmd v = Inr c \<and> stub_encoder [] 57671680 i c = Inr sz
             \<and> int_truediv (int sz) (1024 * 1024) = Inr m \<and> \<not> fle m (Fin 50)"
    proof cases
      case 1 with c0 m0 e s f show ?thesis by blast
    next
      case 2 with c1 m1 e s f show ?thesis by blast
    next
      case 3 with c2 m2 e s f show ?thesis by blast
    qed
  qed
  have fits: "(\<forall>i<1. \<exists>v c sz m.
               calc_bitrates (Fin 50) (Fin 300) 96 (decayed (rnd (96 / 100)) i) = Inr v
               \<and> make_cmd v = Inr c \<and> stub_encoder [57671680] 1000 i c = Inr sz
               \<and> int_truediv (int sz) (1024 * 1024) = Inr m \<and> \<not> fle m (Fin 50))
            \<and> (\<exists>v c sz m.
               calc_bitrates (Fin 50) (Fin 300) 96 (decayed (rnd (96 / 100)) 1) = Inr v
               \<and> make_cmd v = Inr c \<and> stub_encoder [57671680] 1000 1 c = Inr sz
               \<and> int_truediv (int sz) (1024 * 1024) = Inr m \<and> fle m (Fin 50))"
  proof (intro conjI allI impI)
    fix i :: nat assume "i < 1"
    then have "i = 0" by simp
    with c0 m0 e0 s f show "\<exists>v c sz m.
               calc_bitrates (Fin 50) (Fin 300) 96 (decayed (rnd (96 / 100)) i) = Inr v
               \<and> make_cmd v = Inr c \<and> stub_encoder [57671680] 1000 i c = Inr sz
               \<and> int_truediv (int sz) (1024 * 1024) = Inr m \<and> \<not> fle m (Fin 50)"
      by blast
  next
    from c1 m1 e1 s1 f1 show "\<exists>v c sz m.
               calc_bitrates (Fin 50) (Fin 300) 96 (decayed (rnd (96 / 100)) 1) = Inr v
               \<and> make_cmd v = Inr c \<and> stub_encoder [57671680] 1000 1 c = Inr sz
               \<and> int_truediv (int sz) (1024 * 1024) = Inr m \<and> fle m (Fin 50)"
      by blast
  qed
  have r: "(0 :: int) \<le> 2" by simp
  have k: "(1 :: nat) \<le> nat 2" by simp
  note t1 = transcode_retry [OF r, of "Fin 50" "Fin 300" 96 "rnd (96 / 100)" "stub_encoder [] 57671680" "''out.mp4''"]
  note t2 = transcode_retry [OF r, of "Fin 50" "Fin 300" 96 "rnd (96 / 100)" "stub_encoder [57671680] 1000" "''out.mp4''"]
  from t1 over have a: "\<exists>runs. transcode (stub_encoder [] 57671680) (Fin 50) (Fin 300) 96 ''out.mp4'' 2 (rnd (96 / 100))
                = (Inl (FailedToReachTarget (Fin 50) ''out.mp4''), runs)
        \<and> length runs = nat 2 + 1
        \<and> (\<forall>i\<le>nat 2. fst (runs ! i) = decayed (rnd (96 / 100)) i
              \<and> (\<exists>v. calc_bitrates (Fin 50) (Fin 300) 96 (decayed (rnd (96 / 100)) i) = Inr v
                    \<and> make_cmd v = Inr (snd (runs ! i))))"
    by blast
  from t2 have "\<forall>k\<le>nat 2.
            (\<forall>i<k. \<exists>v c sz m.
               calc_bitrates (Fin 50) (Fin 300) 96 (decayed (rnd (96 / 100)) i) = Inr v
               \<and> make_cmd v = Inr c \<and> stub_encoder [57671680] 1000 i c = Inr sz
               \<and> int_truediv (int sz) (1024 * 1024) = Inr m \<and> \<not> fle m (Fin 50))
            \<and> (\<exists>v c sz m.
               calc_bitrates (Fin 50) (Fin 300) 96 (decayed (rnd (96 / 100)) k) = Inr v
               \<and> make_cmd v = Inr c \<and> stub_encoder [57671680] 1000 k c = Inr sz
               \<and> int_truediv (int sz) (1024 * 1024) = Inr m \<and> fle m (Fin 50))
            \<longrightarrow> (\<exists>runs. transcode (stub_encoder [57671680] 1000) (Fin 50) (Fin 300) 96 ''out.mp4'' 2 (rnd (96 / 100)) = (Inr PNone, runs)
                    \<and> length runs = k + 1
                    \<and> (\<forall>i\<le>k. fst (runs ! i) = decayed (rnd (96 / 100)) i
              \<and> (\<exists>v. calc_bitrates (Fin 50) (Fin 300) 96 (decayed (rnd (96 / 100)) i) = Inr v
                    \<and> make_cmd v = Inr (snd (runs ! i)))))"
    by (rule conjunct2)
  from this [rule_format, OF k fits]
  have b: "\<exists>runs. transcode (stub_encoder [57671680] 1000) (Fin 50) (Fin 300) 96 ''out.mp4'' 2 (rnd (96 / 100))
                = (Inr PNone, runs)
        \<and> length runs = 1 + 1
        \<and> (\<forall>i\<le>1. fst (runs ! i) = decayed (rnd (96 / 100)) i
              \<and> (\<exists>v. calc_bitrates (Fin 50) (Fin 300) 96 (decayed (rnd (96 / 100)) i) = Inr v
                    \<and> make_cmd v = Inr (snd (runs ! i))))" .
  have r1: "transcode (stub_encoder [] 57671680) (Fin 50) (Fin 300) 96 ''out.mp4'' 2 (rnd (96 / 100))
       = (Inl (FailedToReachTarget (Fin 50) ''out.mp4''),
          [(Fin (1080863910568919 / 1125899906842624), \<lparr>video_k = 1246, maxrate_k = 1333, bufsize_k = 2492\<rparr>),
           (Fin (7782220156096217 / 9007199254740992), \<lparr>video_k = 1111, maxrate_k = 1188, bufsize_k = 2222\<rparr>),
           (Fin (7003998140486595 / 9007199254740992), \<lparr>video_k = 991, maxrate_k = 1060, bufsize_k = 1982\<rparr>)])"
    by (simp add: transcode_def numeral_3_eq_3 stub_encoder_def float_eval)
  have r2: "transcode (stub_encoder [57671680] 1000) (Fin 50) (Fin 300) 96 ''out.mp4'' 2 (rnd (96 / 100))
       = (Inr PNone,
          [(Fin (1080863910568919 / 1125899906842624), \<lparr>video_k = 1246, maxrate_k = 1333, bufsize_k = 2492\<rparr>),
           (Fin (7782220156096217 / 9007199254740992), \<lparr>video_k = 1111, maxrate_k = 1188, bufsize_k = 2222\<rparr>)])"
    by (simp add: transcode_def numeral_3_eq_3 stub_encoder_def float_eval)
  from r c0 m0 c1 m1 c2 m2 e s f a k e0 e1 s1 f1 b r1 r2 show ?thesis
    by (intro conjI)
qed

text \<open>
  The estimate is made anew in every iteration and can become infeasible after a decay.
  Target 1 MB, 80 s, audio 96 kbps, safety 0.96, 2 retries, every output 2 MiB: the first
  attempt runs at the 200000 floor and is too large; at the decayed factor the remainder is
  negative and the estimator raises. There is one encoder run, not three, and the error
  is not the one of the exhausted loop.
\<close>

theorem transcode_infeasible_counterexample:
  "(0 :: int) \<le> 2
   \<and> stub_encoder [] 2097152 0 \<lparr>video_k = 200, maxrate_k = 214, bufsize_k = 400\<rparr> = Inr 2097152
   \<and> int_truediv (int 2097152) (1024 * 1024) = Inr (Fin 2) \<and> \<not> fle (Fin 2) (Fin 1)
   \<and> calc_bitrates (Fin 1) (Fin 80) 96 (decayed (rnd (96 / 100)) 0) = Inr 200000
   \<and> make_cmd 200000 = Inr \<lparr>video_k = 200, maxrate_k = 214, bufsize_k = 400\<rparr>
   \<and> calc_bitrates (Fin 1) (Fin 80) 96 (decayed (rnd (96 / 100)) 1) = Inl TargetSizeTooSmall
   \<and> transcode (stub_encoder [] 2097152) (Fin 1) (Fin 80) 96 ''out.mp4'' 2 (rnd (96 / 100))
       = (Inl TargetSizeTooSmall,
          [(rnd (96 / 100), \<lparr>video_k = 200, maxrate_k = 214, bufsize_k = 400\<rparr>)])"
  by (simp add: transcode_def numeral_3_eq_3 stub_encoder_def float_eval)

section \<open>Properties of the catalog client and the selector\<close>

lemma createtime_key_int:
  "int_timestamped x \<Longrightarrow> createtime_key x = PInt (timestamp x)"
  by (auto simp: int_timestamped_def createtime_key_def timestamp_def dict_get_def py_or_def
           split: option.splits pyval.splits)

lemma py_max_first_greatest:
  assumes gt: "\<forall>a b. gt (PInt a) (PInt b) = Inr (b < a)"
    and key: "\<forall>x\<in>set (b # xs). key x = PInt (ts x)"
  shows "\<exists>ys m zs. py_max gt key b xs = Inr m \<and> b # xs = ys @ m # zs
           \<and> (\<forall>y\<in>set ys. ts y < ts m) \<and> (\<forall>z\<in>set zs. ts z \<le> ts m)"
  using key
proof (induction xs arbitrary: b)
  case Nil
  have "py_max gt key b [] = Inr b \<and> [b] = [] @ b # []
      \<and> (\<forall>y\<in>set []. ts y < ts b) \<and> (\<forall>z\<in>set []. ts z \<le> ts b)"
    by simp
  then show ?case by blast
next
  case (Cons x xs)
  have kx: "key x = PInt (ts x)" and kb: "key b = PInt (ts b)"
    using Cons.prems by simp_all
  show ?case
  proof (cases "ts b < ts x")
    case True
    have "\<forall>y\<in>set (x # xs). key y = PInt (ts y)" using Cons.prems by simp
    from Cons.IH [OF this] obtain ys m zs where r:
      "py_max gt key x xs = Inr m" "x # xs = ys @ m # zs"
      "\<forall>y\<in>set ys. ts y < ts m" "\<forall>z\<in>set zs. ts z \<le> ts m"
      by blast
    have "ts x \<le> ts m"
    proof (cases ys)
      case Nil
      with r(2) show ?thesis by simp
    next
      case (Cons y ys')
      with r(2) have "x = y" by simp
      with r(3) Cons show ?thesis by simp
    qed
    with True have bm: "ts b < ts m" by simp
    have pm: "py_max gt key b (x # xs) = Inr m"
      using True r(1) by (simp add: gt kx kb)
    have "b # x # xs = (b # ys) @ m # zs" using r(2) by simp
    moreover have "\<forall>y\<in>set (b # ys). ts y < ts m" using bm r(3) by simp
    ultimately show ?thesis using pm r(4) by blast
  next
    case False
    have "\<forall>y\<in>set (b # xs). key y = PInt (ts y)" using Cons.prems by simp
    from Cons.IH [OF this] obtain ys m zs where r:
      "py_max gt key b xs = Inr m" "b # xs = ys @ m # zs"
      "\<forall>y\<in>set ys. ts y < ts m" "\<forall>z\<in>set zs. ts z \<le> ts m"
      by blast
    have pm: "py_max gt key b (x # xs) = Inr m"
      using False r(1) by (simp add: gt kx kb)
    show ?thesis
    proof (cases ys)
      case Nil
      with r(2) have mb: "m = b" and zx: "zs = xs" by simp_all
      have "b # x # xs = [] @ m # (x # xs)" using mb by simp
      moreover have "\<forall>y\<in>set []. ts y < ts m" by simp
      moreover have "\<forall>z\<in>set (x # xs). ts z \<le> ts m" using r(4) False mb zx by simp
      ultimately show ?thesis using pm by blast
    next
      case (Cons y ys')
      with r(2) have yb: "y = b" and xs: "xs = ys' @ m # zs" by simp_all
      from r(3) Cons yb have bm: "ts b < ts m" by simp
      with False have xm: "ts x < ts m" by simp
      have "b # x # xs = (b # x # ys') @ m # zs" using xs by simp
      moreover have "\<forall>y\<in>set (b # x # ys'). ts y < ts m" using r(3) Cons xm bm by simp
      ultimately show ?thesis using pm r(4) by blast
    qed
  qed
qed

text \<open>
  Claim C5. Let every record hold an integer, \<open>None\<close> or nothing under \<open>createtime\<close>,
  and let \<open>gt\<close> be Python's order on integers. On the empty list the selection raises
  its no-videos error. On a non-empty list it returns the first record whose timestamp is
  the greatest, where a missing, null or zero \<open>createtime\<close> counts as timestamp 0: over
  the timestamps 5, 9, 3 it is the record with 9, and over all-zero or all-missing
  timestamps it is the first record.
\<close>

theorem select_latest_first_max:
  assumes gt: "\<forall>a b. gt (PInt a) (PInt b) = Inr (b < a)"
    and ints: "\<forall>x\<in>set videos. int_timestamped x"
  shows "(videos = [] \<longrightarrow> select_latest gt videos = Inl NoVideosFound)
       \<and> (videos \<noteq> [] \<longrightarrow>
            (\<exists>i<length videos. select_latest gt videos = Inr (videos ! i)
               \<and> (\<forall>j<length videos. timestamp (videos ! j) \<le> timestamp (videos ! i))
               \<and> (\<forall>j<i. timestamp (videos ! j) < timestamp (videos ! i))))"
proof (cases videos)
  case Nil
  then show ?thesis by (simp add: select_latest_def)
next
  case (Cons v vs)
  have "\<forall>x\<in>set (v # vs). createtime_key x = PInt (timestamp x)"
    using ints Cons by (simp add: createtime_key_int)
  from py_max_first_greatest [OF gt this] obtain ys m zs where r:
    "py_max gt createtime_key v vs = Inr m" "v # vs = ys @ m # zs"
    "\<forall>y\<in>set ys. timestamp y < timestamp m" "\<forall>z\<in>set zs. timestamp z \<le> timestamp m"
    by blast
  let ?i = "length ys"
  have vi: "videos ! ?i = m" and il: "?i < length videos"
    using Cons r(2) by simp_all
  have sl: "select_latest gt videos = Inr (videos ! ?i)"
    using Cons r(1) vi by (simp add: select_latest_def)
  have before: "\<forall>j<?i. timestamp (videos ! j) < timestamp (videos ! ?i)"
    using r(3) Cons r(2) vi by (simp add: nth_append)
  have all: "\<forall>j<length videos. timestamp (videos ! j) \<le> timestamp (videos ! ?i)"
  proof (intro allI impI)
    fix j assume j: "j < length videos"
    have "videos ! j \<in> set videos" using j by simp
    then have "videos ! j \<in> set ys \<union> {m} \<union> set zs" using Cons r(2) by simp
    then show "timestamp (videos ! j) \<le> timestamp (videos ! ?i)"
      unfolding vi using r(3,4) by fastforce
  qed
  from il sl before all Cons show ?thesis by blast
qed

theorem select_latest_first_max_witness:
  "(\<forall>a b. int_gt (PInt a) (PInt b) = Inr (b < a))
   \<and> int_timestamped [(''createtime'', PInt 5)]
   \<and> int_timestamped [(''createtime'', PInt 9)]
   \<and> int_timestamped [(''createtime'', PInt 3)]
   \<and> select_latest int_gt [[(''createtime'', PInt 5)], [(''createtime'', PInt 9)], [(''createtime'', PInt 3)]]
        = Inr [(''createtime'', PInt 9)]
   \<and> select_latest int_gt [[(''id'', PInt 1), (''createtime'', PInt 0)], [(''id'', PInt 2), (''createtime'', PInt 0)]]
        = Inr [(''id'', PInt 1), (''createtime'', PInt 0)]
   \<and> select_latest int_gt [[(''id'', PInt 1)], [(''id'', PInt 2), (''createtime'', PNone)]]
        = Inr [(''id'', PInt 1)]
   \<and> select_latest int_gt [] = Inl NoVideosFound"
  using
    select_latest_first_max [of int_gt "[[(''createtime'', PInt 5)], [(''createtime'', PInt 9)], [(''createtime'', PInt 3)]]"]
    select_latest_first_max [of int_gt "[]"]
  by (simp add: int_timestamped_def select_latest_def createtime_key_def dict_get_def py_or_def)

text \<open>
  Claim C6, amended. \<open>_select_user\<close> fails exactly when the index is negative or at
  least the length of the list, and otherwise returns the record at the index. On a
  non-empty list the failure is the index-out-of-range error; on the empty list it is
  the no-users error, whatever the index. Index 5 on three records and index -1 on any
  list both fail.
\<close>

theorem select_user_spec:
  "((\<exists>e. select_user data index = Inl e) \<longleftrightarrow> index < 0 \<or> int (length data) \<le> index)
   \<and> (select_user data index = Inl (UserIndexOutOfRange index)
        \<longleftrightarrow> data \<noteq> [] \<and> (index < 0 \<or> int (length data) \<le> index))
   \<and> (select_user data index = Inl NoUsersFound \<longleftrightarrow> data = [])
   \<and> (0 \<le> index \<and> index < int (length data) \<longrightarrow> select_user data index = Inr (data ! nat index))"
  by (auto simp: select_user_def)

theorem select_user_spec_witness:
  "select_user [[(''a'', PInt 1)], [(''a'', PInt 2)], [(''a'', PInt 3)]] 5 = Inl (UserIndexOutOfRange 5)
   \<and> select_user [[(''a'', PInt 1)], [(''a'', PInt 2)], [(''a'', PInt 3)]] (- 1) = Inl (UserIndexOutOfRange (- 1))
   \<and> select_user [] (- 1) = Inl NoUsersFound
   \<and> select_user [[(''a'', PInt 1)], [(''a'', PInt 2)], [(''a'', PInt 3)]] 2 = Inr [(''a'', PInt 3)]"
  using select_user_spec [of "[[(''a'', PInt 1)], [(''a'', PInt 2)], [(''a'', PInt 3)]]" 5]
    select_user_spec [of "[[(''a'', PInt 1)], [(''a'', PInt 2)], [(''a'', PInt 3)]]" "- 1"]
    select_user_spec [of "[]" "- 1"]
    select_user_spec [of "[[(''a'', PInt 1)], [(''a'', PInt 2)], [(''a'', PInt 3)]]" 2]
  by simp

text \<open>
  On the empty list index 0 is at least the length, and the error raised is the one of
  the emptiness guard, not the index-out-of-range error.
\<close>

theorem select_user_empty_counterexample:
  "int (length ([] :: dict list)) \<le> 0
   \<and> select_user [] 0 = Inl NoUsersFound
   \<and> select_user [] 0 \<noteq> Inl (UserIndexOutOfRange 0)"
  by (simp add: select_user_def)

lemma py_eq_int_200:
  "py_eq_int (dict_get data ''code'') 200 \<longleftrightarrow>
     map_of data ''code'' = Some (PInt 200) \<or> map_of data ''code'' = Some (PFloat 200)"
  by (cases "map_of data ''code''"; cases "dict_get data ''code''")
     (auto simp: dict_get_def)

text \<open>
  Claim C7. For every response to a catalog request: a status other than 200 is a
  failure that carries the status and the first 500 characters of the body; a status of
  200 whose decoded body has a \<open>code\<close> other than 200 is a failure too; and the call
  returns the decoded body exactly when the status is 200, the body is an object and
  its \<open>code\<close> is 200.
\<close>

theorem api_get_spec:
  assumes "http (api_request api_key path params) = Inr resp"
  shows "(status_code resp \<noteq> 200 \<longrightarrow>
            api_get http api_key path params
              = Inl (HttpStatus (status_code resp) (take 500 (resp_text resp))))
       \<and> (status_code resp = 200 \<and> resp_json resp = Inr (PDict data)
            \<and> map_of data ''code'' \<noteq> Some (PInt 200) \<and> map_of data ''code'' \<noteq> Some (PFloat 200) \<longrightarrow>
            api_get http api_key path params = Inl (ApiError data))
       \<and> (api_get http api_key path params = Inr data \<longleftrightarrow>
            status_code resp = 200 \<and> resp_json resp = Inr (PDict data)
            \<and> (map_of data ''code'' = Some (PInt 200) \<or> map_of data ''code'' = Some (PFloat 200)))"
  using assms
  by (auto simp: api_get_def py_eq_int_200 split: sum.splits pyval.splits)

theorem api_get_spec_witness:
  "serve \<lparr>status_code = 404, resp_text = ''not found'', resp_json = Inl (External ''JSONDecodeError''),
          resp_chunks = [], resp_stream_error = None\<rparr> (api_request ''k'' ''/p'' [])
     = Inr \<lparr>status_code = 404, resp_text = ''not found'', resp_json = Inl (External ''JSONDecodeError''),
          resp_chunks = [], resp_stream_error = None\<rparr>
   \<and> api_get (serve \<lparr>status_code = 404, resp_text = ''not found'', resp_json = Inl (External ''JSONDecodeError''),
          resp_chunks = [], resp_stream_error = None\<rparr>) ''k'' ''/p'' [] = Inl (HttpStatus 404 ''not found'')
   \<and> api_get (serve \<lparr>status_code = 200, resp_text = ''{}'', resp_json = Inr (PDict [(''code'', PInt 500)]),
          resp_chunks = [], resp_stream_error = None\<rparr>) ''k'' ''/p'' [] = Inl (ApiError [(''code'', PInt 500)])
   \<and> api_get (serve \<lparr>status_code = 200, resp_text = ''{}'', resp_json = Inr (PDict [(''code'', PInt 200)]),
          resp_chunks = [], resp_stream_error = None\<rparr>) ''k'' ''/p'' [] = Inr [(''code'', PInt 200)]"
  using
    api_get_spec [of "serve \<lparr>status_code = 404, resp_text = ''not found'', resp_json = Inl (External ''JSONDecodeError''),
          resp_chunks = [], resp_stream_error = None\<rparr>" "''k''" "''/p''" "[]"
          "\<lparr>status_code = 404, resp_text = ''not found'', resp_json = Inl (External ''JSONDecodeError''),
          resp_chunks = [], resp_stream_error = None\<rparr>" "[]"]
    api_get_spec [of "serve \<lparr>status_code = 200, resp_text = ''{}'', resp_json = Inr (PDict [(''code'', PInt 500)]),
          resp_chunks = [], resp_stream_error = None\<rparr>" "''k''" "''/p''" "[]"
          "\<lparr>status_code = 200, resp_text = ''{}'', resp_json = Inr (PDict [(''code'', PInt 500)]),
          resp_chunks = [], resp_stream_error = None\<rparr>" "[(''code'', PInt 500)]"]
    api_get_spec [of "serve \<lparr>status_code = 200, resp_text = ''{}'', resp_json = Inr (PDict [(''code'', PInt 200)]),
          resp_chunks = [], resp_stream_error = None\<rparr>" "''k''" "''/p''" "[]"
          "\<lparr>status_code = 200, resp_text = ''{}'', resp_json = Inr (PDict [(''code'', PInt 200)]),
          resp_chunks = [], resp_stream_error = None\<rparr>" "[(''code'', PInt 200)]"]
  by (simp add: serve_def)

lemma key_in_dict: "k \<in> fst ` set d \<longleftrightarrow> (\<exists>v. map_of d k = Some v)"
  by (metis map_of_eq_None_iff not_None_eq)

text \<open>
  Claim C8. \<open>_get_object_list\<close> returns the value under \<open>object_list\<close> when that key
  is present, else the value under \<open>object\<close> when that key is present, else the empty
  list; it has no failing branch.
\<close>

theorem get_object_list_spec:
  "(''object_list'' \<in> fst ` set home_data \<longrightarrow>
      map_of home_data ''object_list'' = Some (get_object_list home_data))
   \<and> (''object_list'' \<notin> fst ` set home_data \<and> ''object'' \<in> fst ` set home_data \<longrightarrow>
      map_of home_data ''object'' = Some (get_object_list home_data))
   \<and> (''object_list'' \<notin> fst ` set home_data \<and> ''object'' \<notin> fst ` set home_data \<longrightarrow>
      get_object_list home_data = PList [])"
  by (auto simp: get_object_list_def key_in_dict split: option.splits)

theorem get_object_list_spec_witness:
  "get_object_list [(''object'', PList [PInt 1]), (''object_list'', PList [PInt 2])] = PList [PInt 2]
   \<and> get_object_list [(''object'', PList [PInt 1])] = PList [PInt 1]
   \<and> get_object_list [(''other'', PList [PInt 1])] = PList []"
  using get_object_list_spec [of "[(''object'', PList [PInt 1]), (''object_list'', PList [PInt 2])]"]
    get_object_list_spec [of "[(''object'', PList [PInt 1])]"]
    get_object_list_spec [of "[(''other'', PList [PInt 1])]"]
  by simp

section \<open>Properties of the downloader\<close>

lemma write_chunks_concat: "write_chunks chunks f = f @ concat chunks"
  by (induction chunks arbitrary: f) auto

text \<open>
  Claim C9, amended. For every response with a status from 400 to 599 the download
  fails with the HTTP error of \<open>raise_for_status\<close> and leaves the file system as it was.
  For every other response whose stream does not break, it returns \<open>None\<close>, and the
  destination then holds the received chunks in order, so the number of bytes written
  is the size of that file.
\<close>

theorem download_file_spec:
  assumes "http \<lparr>req_url = url, req_params = [], req_headers = []\<rparr> = Inr resp"
  shows "(400 \<le> status_code resp \<and> status_code resp < 600 \<longrightarrow>
            download_file http fs url out_path = (Inl (HTTPError (status_code resp)), fs))
       \<and> (\<not> (400 \<le> status_code resp \<and> status_code resp < 600) \<and> resp_stream_error resp = None \<longrightarrow>
            download_file http fs url out_path
              = (Inr PNone, fs(out_path \<mapsto> concat (resp_chunks resp))))"
  using assms
  by (simp add: download_file_def raise_for_status_def Let_def write_chunks_concat)

theorem download_file_spec_witness:
  "download_file
     (serve \<lparr>status_code = 404, resp_text = [], resp_json = Inl (External ''JSONDecodeError''),
             resp_chunks = [[1, 2], [3]], resp_stream_error = None\<rparr>)
     Map.empty ''http://host/v'' ''v.mp4''
   = (Inl (HTTPError 404), Map.empty)
   \<and> download_file
     (serve \<lparr>status_code = 200, resp_text = [], resp_json = Inl (External ''JSONDecodeError''),
             resp_chunks = [[1, 2], [], [3]], resp_stream_error = None\<rparr>)
     Map.empty ''http://host/v'' ''v.mp4''
   = (Inr PNone, [''v.mp4'' \<mapsto> [1, 2, 3]])"
  using
    download_file_spec [of "serve \<lparr>status_code = 404, resp_text = [], resp_json = Inl (External ''JSONDecodeError''),
             resp_chunks = [[1, 2], [3]], resp_stream_error = None\<rparr>" "''http://host/v''"
         "\<lparr>status_code = 404, resp_text = [], resp_json = Inl (External ''JSONDecodeError''),
             resp_chunks = [[1, 2], [3]], resp_stream_error = None\<rparr>" Map.empty "''v.mp4''"]
    download_file_spec [of "serve \<lparr>status_code = 200, resp_text = [], resp_json = Inl (External ''JSONDecodeError''),
             resp_chunks = [[1, 2], [], [3]], resp_stream_error = None\<rparr>" "''http://host/v''"
         "\<lparr>status_code = 200, resp_text = [], resp_json = Inl (External ''JSONDecodeError''),
             resp_chunks = [[1, 2], [], [3]], resp_stream_error = None\<rparr>" Map.empty "''v.mp4''"]
  by (simp add: serve_def)

text \<open>
  A transfer of three bytes succeeds and the value returned is \<open>None\<close>, not 3.
\<close>

theorem download_file_returns_none_counterexample:
  "download_file
     (serve \<lparr>status_code = 200, resp_text = [], resp_json = Inl (External ''JSONDecodeError''),
             resp_chunks = [[1, 2], [3]], resp_stream_error = None\<rparr>)
     Map.empty ''http://host/v'' ''v.mp4''
   = (Inr PNone, [''v.mp4'' \<mapsto> [1, 2, 3]])
   \<and> PNone \<noteq> PInt (int (length [1, 2, 3 :: byte]))"
  by (simp add: download_file_def serve_def raise_for_status_def Let_def)

end
